theory Spec2Isabelle
  imports Main "HOL-Library.Char_ord" "HOL-Library.List_Lexorder" "HOL-Library.Sublist"
    "HOL-Library.AList" "HOL-Library.Word" "HOL-Library.Monad_Syntax"
begin

section \<open>Data model of chaincode/contract.go\<close>

text \<open>
  Go strings and byte slices are sequences of bytes; both are modelled as \<open>char list\<close>
  (an Isabelle \<open>char\<close> is one byte). A Go \<open>error\<close> is modelled by its message, so that
  \<open>fmt.Errorf("...: %v", err)\<close> is the concatenation of the prefix and the message of
  \<open>err\<close>. A function returning \<open>(T, error)\<close> returns \<open>error + T\<close>, and a function
  returning only \<open>error\<close> returns \<open>error + unit\<close>.
\<close>

type_synonym bytes = string
type_synonym error = string

text \<open>A Go slice that can be nil: \<open>None\<close> is the nil slice, \<open>Some []\<close> an empty non-nil one.\<close>

type_synonym 'a slice = "'a list option"

definition append_slice :: "'a slice \<Rightarrow> 'a \<Rightarrow> 'a slice" where
  "append_slice s x = (case s of None \<Rightarrow> Some [x] | Some xs \<Rightarrow> Some (xs @ [x]))"

definition len :: "'a slice \<Rightarrow> nat" where
  "len s = (case s of None \<Rightarrow> 0 | Some xs \<Rightarrow> length xs)"

definition elems :: "'a slice \<Rightarrow> 'a list" where
  "elems s = (case s of None \<Rightarrow> [] | Some xs \<Rightarrow> xs)"

text \<open>The struct Asset; its two \<open>int\<close> fields are 64-bit integers.\<close>

record Asset =
  DocType :: string
  ID :: string
  Color :: string
  Size :: "64 word"
  Owner :: string
  AppraisedValue :: "64 word"

text \<open>The protobuf timestamp of a history entry and Go's \<open>time.Time\<close> (seconds and
  nanoseconds since the Unix epoch, UTC).\<close>

record pb_timestamp =
  seconds :: "64 word"
  nanos :: "32 word"

record gotime =
  unix_sec :: int
  nsec :: int

record HistoryQueryResult =
  Record :: Asset
  TxId :: string
  Timestamp :: gotime
  IsDelete :: bool

text \<open>One entry of the historical-change iterator (\<open>queryresult.KeyModification\<close>).\<close>

record KeyModification =
  km_TxId :: string
  km_Value :: bytes
  km_Timestamp :: "pb_timestamp option"
  km_IsDelete :: bool

definition index :: string where
  "index = ''color~name''"

section \<open>Libraries the contract calls\<close>

text \<open>
  \<open>encoding/json\<close> and \<open>ptypes.Timestamp\<close> are not code of the contract. They are
  parameters of the model: every operation takes the record \<open>L\<close> of the library functions
  it calls, and a theorem that needs a property of a library function states it as a
  hypothesis.
\<close>

record lib =
  json_Marshal :: "Asset \<Rightarrow> error + bytes"
  json_Unmarshal :: "bytes \<Rightarrow> error + Asset"
  ptypes_Timestamp :: "pb_timestamp option \<Rightarrow> error + gotime"

section \<open>Ledger access: the chaincode stub\<close>

text \<open>
  The stub of one invocation: the world state as an association list of keys and values,
  the faults the host injects (every accessor may fail), and the two iterators whose
  content only the host knows (rich queries and key history). An iterator is the list of
  what its successive \<open>Next\<close> calls return. A read sees the writes made earlier in the
  same invocation, and an iterator holds the entries present when it was opened.
\<close>

record stub =
  world :: "(string \<times> bytes) list"
  get_fault :: "string \<Rightarrow> error option"
  put_fault :: "string \<Rightarrow> error option"
  del_fault :: "string \<Rightarrow> error option"
  scan_fault :: "string \<Rightarrow> string \<Rightarrow> error option"
  next_fault :: "string \<Rightarrow> error option"
  rich_query :: "string \<Rightarrow> error + (error + string \<times> bytes) list"
  history :: "string \<Rightarrow> error + (error + KeyModification) list"

definition GetState :: "stub \<Rightarrow> string \<Rightarrow> error + bytes option" where
  "GetState st key =
     (case get_fault st key of Some e \<Rightarrow> Inl e | None \<Rightarrow> Inr (map_of (world st) key))"

text \<open>Writing an empty value deletes the key, as the comment in CreateAsset says.\<close>

definition PutState :: "stub \<Rightarrow> string \<Rightarrow> bytes \<Rightarrow> error + stub" where
  "PutState st key val =
     (if key = [] then Inl ''key must not be an empty string''
      else case put_fault st key of
        Some e \<Rightarrow> Inl e
      | None \<Rightarrow> Inr (st\<lparr>world := (if val = [] then AList.delete key (world st)
                                   else AList.update key val (world st))\<rparr>))"

definition DelState :: "stub \<Rightarrow> string \<Rightarrow> error + stub" where
  "DelState st key =
     (case del_fault st key of
        Some e \<Rightarrow> Inl e
      | None \<Rightarrow> Inr (st\<lparr>world := AList.delete key (world st)\<rparr>))"

subsection \<open>Composite keys\<close>

definition minUnicodeRuneValue :: char where
  "minUnicodeRuneValue = CHR 0x00"

definition maxUnicodeRuneValue :: string where
  "maxUnicodeRuneValue = [CHR 0xF4, CHR 0x8F, CHR 0xBF, CHR 0xBF]"

definition compositeKeyNamespace :: string where
  "compositeKeyNamespace = [CHR 0x00]"

definition emptyKeySubstitute :: string where
  "emptyKeySubstitute = [CHR 0x01]"

definition cont_byte :: "char \<Rightarrow> bool" where
  "cont_byte c = (0x80 \<le> (of_char c :: nat) \<and> (of_char c :: nat) \<le> 0xBF)"

definition byte_in :: "nat \<Rightarrow> nat \<Rightarrow> char \<Rightarrow> bool" where
  "byte_in lo hi c = (lo \<le> (of_char c :: nat) \<and> (of_char c :: nat) \<le> hi)"

text \<open>\<open>utf8.ValidString\<close>: well-formed UTF-8 (no overlong forms, no surrogates, at most
  U+10FFFF).\<close>

fun utf8_valid :: "string \<Rightarrow> bool" where
  "utf8_valid [] = True"
| "utf8_valid (c # cs) =
     (if (of_char c :: nat) < 0x80 then utf8_valid cs
      else if byte_in 0xC2 0xDF c then
        (case cs of c1 # r \<Rightarrow> cont_byte c1 \<and> utf8_valid r | _ \<Rightarrow> False)
      else if byte_in 0xE0 0xEF c then
        (case cs of c1 # c2 # r \<Rightarrow>
           (if of_char c = (0xE0 :: nat) then byte_in 0xA0 0xBF c1
            else if of_char c = (0xED :: nat) then byte_in 0x80 0x9F c1
            else cont_byte c1) \<and> cont_byte c2 \<and> utf8_valid r
         | _ \<Rightarrow> False)
      else if byte_in 0xF0 0xF4 c then
        (case cs of c1 # c2 # c3 # r \<Rightarrow>
           (if of_char c = (0xF0 :: nat) then byte_in 0x90 0xBF c1
            else if of_char c = (0xF4 :: nat) then byte_in 0x80 0x8F c1
            else cont_byte c1) \<and> cont_byte c2 \<and> cont_byte c3 \<and> utf8_valid r
         | _ \<Rightarrow> False)
      else False)"

fun contains :: "string \<Rightarrow> string \<Rightarrow> bool" where
  "contains p [] = (p = [])"
| "contains p (x # xs) = (prefix p (x # xs) \<or> contains p xs)"

text \<open>\<open>validateCompositeKeyAttribute\<close>: valid UTF-8 holding neither U+0000 nor
  U+10FFFF. In valid UTF-8 the rune U+0000 is the byte 0 and U+10FFFF the four bytes
  F4 8F BF BF.\<close>

definition validateCompositeKeyAttribute :: "string \<Rightarrow> error + unit" where
  "validateCompositeKeyAttribute str =
     (if \<not> utf8_valid str then Inl (''not a valid utf8 string: '' @ str)
      else if minUnicodeRuneValue \<in> set str \<or> contains maxUnicodeRuneValue str
        then Inl (''input contains a unicode rune not allowed in a composite key: '' @ str)
      else Inr ())"

fun appendAttributes :: "string \<Rightarrow> string list \<Rightarrow> error + string" where
  "appendAttributes ck [] = Inr ck"
| "appendAttributes ck (att # atts) =
     (case validateCompositeKeyAttribute att of
        Inl e \<Rightarrow> Inl e
      | Inr _ \<Rightarrow> appendAttributes (ck @ att @ [minUnicodeRuneValue]) atts)"

definition CreateCompositeKey :: "string \<Rightarrow> string list \<Rightarrow> error + string" where
  "CreateCompositeKey objectType attributes =
     (case validateCompositeKeyAttribute objectType of
        Inl e \<Rightarrow> Inl e
      | Inr _ \<Rightarrow>
          appendAttributes (compositeKeyNamespace @ objectType @ [minUnicodeRuneValue])
            attributes)"

text \<open>\<open>SplitCompositeKey\<close> skips the first byte and cuts at every zero byte; a trailing
  part with no zero byte after it is dropped. Taking \<open>components[0]\<close> of no components
  panics.\<close>

fun splitComponents :: "string \<Rightarrow> string \<Rightarrow> string list" where
  "splitComponents cur [] = []"
| "splitComponents cur (c # cs) =
     (if c = minUnicodeRuneValue then cur # splitComponents [] cs
      else splitComponents (cur @ [c]) cs)"

definition SplitCompositeKey :: "string \<Rightarrow> error + string \<times> string list" where
  "SplitCompositeKey compositeKey =
     (case splitComponents [] (tl compositeKey) of
        [] \<Rightarrow> Inl ''panic: runtime error: index out of range''
      | objectType # attributes \<Rightarrow> Inr (objectType, attributes))"

subsection \<open>Range iteration\<close>

text \<open>Keys are ordered bytewise; an empty end key means no upper bound.\<close>

definition in_range :: "string \<Rightarrow> string \<Rightarrow> string \<Rightarrow> bool" where
  "in_range startKey endKey k = (startKey \<le> k \<and> (endKey = [] \<or> k < endKey))"

definition range_entries :: "(string \<times> bytes) list \<Rightarrow> string \<Rightarrow> string \<Rightarrow> (string \<times> bytes) list" where
  "range_entries w startKey endKey =
     filter (\<lambda>kv. in_range startKey endKey (fst kv)) (sort_key fst (AList.clearjunk w))"

definition handleGetStateByRange ::
    "stub \<Rightarrow> string \<Rightarrow> string \<Rightarrow> error + (error + string \<times> bytes) list" where
  "handleGetStateByRange st startKey endKey =
     (case scan_fault st startKey endKey of
        Some e \<Rightarrow> Inl e
      | None \<Rightarrow>
          Inr (map (\<lambda>kv. case next_fault st (fst kv) of Some e \<Rightarrow> Inl e | None \<Rightarrow> Inr kv)
                 (range_entries (world st) startKey endKey)))"

definition validateSimpleKeys :: "string list \<Rightarrow> error + unit" where
  "validateSimpleKeys simpleKeys =
     (case filter (\<lambda>key. key \<noteq> [] \<and> hd key = hd compositeKeyNamespace) simpleKeys of
        [] \<Rightarrow> Inr ()
      | key # _ \<Rightarrow>
          Inl (''first character of the key ['' @ key
               @ ''] contains a null character which is not allowed''))"

definition GetStateByRange ::
    "stub \<Rightarrow> string \<Rightarrow> string \<Rightarrow> error + (error + string \<times> bytes) list" where
  "GetStateByRange st startKey endKey =
     (let startKey' = (if startKey = [] then emptyKeySubstitute else startKey) in
      case validateSimpleKeys [startKey', endKey] of
        Inl e \<Rightarrow> Inl e
      | Inr _ \<Rightarrow> handleGetStateByRange st startKey' endKey)"

definition GetStateByPartialCompositeKey ::
    "stub \<Rightarrow> string \<Rightarrow> string list \<Rightarrow> error + (error + string \<times> bytes) list" where
  "GetStateByPartialCompositeKey st objectType attributes =
     (case CreateCompositeKey objectType attributes of
        Inl e \<Rightarrow> Inl e
      | Inr partialCompositeKey \<Rightarrow>
          handleGetStateByRange st partialCompositeKey
            (partialCompositeKey @ maxUnicodeRuneValue))"

definition GetQueryResult :: "stub \<Rightarrow> string \<Rightarrow> error + (error + string \<times> bytes) list" where
  "GetQueryResult st queryString = rich_query st queryString"

definition GetHistoryForKey :: "stub \<Rightarrow> string \<Rightarrow> error + (error + KeyModification) list" where
  "GetHistoryForKey st key = history st key"

section \<open>The contract\<close>

definition AssetExists :: "stub \<Rightarrow> string \<Rightarrow> error + bool" where
  "AssetExists st assetID =
     (case GetState st assetID of
        Inl err \<Rightarrow> Inl (''failed to read asset '' @ assetID @ '' from world state. '' @ err)
      | Inr assetBytes \<Rightarrow> Inr (assetBytes \<noteq> None))"

definition ReadAsset :: "lib \<Rightarrow> stub \<Rightarrow> string \<Rightarrow> error + Asset" where
  "ReadAsset L st assetID =
     (case GetState st assetID of
        Inl err \<Rightarrow> Inl (''failed to get asset '' @ assetID @ '': '' @ err)
      | Inr None \<Rightarrow> Inl (''asset '' @ assetID @ '' does not exist'')
      | Inr (Some assetBytes) \<Rightarrow>
          (case json_Unmarshal L assetBytes of
             Inl err \<Rightarrow> Inl err
           | Inr asset \<Rightarrow> Inr asset))"

text \<open>An operation that writes returns its result and the stub it leaves: a failing
  operation keeps the writes made before the failure (the host discards them on abort).\<close>

definition CreateAsset ::
    "lib \<Rightarrow> stub \<Rightarrow> string \<Rightarrow> string \<Rightarrow> 64 word \<Rightarrow> string \<Rightarrow> 64 word \<Rightarrow> (error + unit) \<times> stub" where
  "CreateAsset L st assetID color size' owner appraisedValue =
     (case AssetExists st assetID of
        Inl err \<Rightarrow> (Inl (''failed to get asset: '' @ err), st)
      | Inr exists \<Rightarrow>
          if exists then (Inl (''asset already exists: '' @ assetID), st)
          else
            (let asset = \<lparr>DocType = ''asset'', ID = assetID, Color = color, Size = size',
                          Owner = owner, AppraisedValue = appraisedValue\<rparr> in
             (case json_Marshal L asset of
                Inl err \<Rightarrow> (Inl err, st)
              | Inr assetBytes \<Rightarrow>
                  (case PutState st assetID assetBytes of
                     Inl err \<Rightarrow> (Inl err, st)
                   | Inr st1 \<Rightarrow>
                       (case CreateCompositeKey index [Color asset, ID asset] of
                          Inl err \<Rightarrow> (Inl err, st1)
                        | Inr colorNameIndexKey \<Rightarrow>
                            (case PutState st1 colorNameIndexKey [CHR 0x00] of
                               Inl err \<Rightarrow> (Inl err, st1)
                             | Inr st2 \<Rightarrow> (Inr (), st2)))))))"

definition DeleteAsset :: "lib \<Rightarrow> stub \<Rightarrow> string \<Rightarrow> (error + unit) \<times> stub" where
  "DeleteAsset L st assetID =
     (case ReadAsset L st assetID of
        Inl err \<Rightarrow> (Inl err, st)
      | Inr asset \<Rightarrow>
          (case DelState st assetID of
             Inl err \<Rightarrow> (Inl (''failed to delete asset '' @ assetID @ '': '' @ err), st)
           | Inr st1 \<Rightarrow>
               (case CreateCompositeKey index [Color asset, ID asset] of
                  Inl err \<Rightarrow> (Inl err, st1)
                | Inr colorNameIndexKey \<Rightarrow>
                    (case DelState st1 colorNameIndexKey of
                       Inl err \<Rightarrow> (Inl err, st1)
                     | Inr st2 \<Rightarrow> (Inr (), st2)))))"

definition TransferAsset :: "lib \<Rightarrow> stub \<Rightarrow> string \<Rightarrow> string \<Rightarrow> (error + unit) \<times> stub" where
  "TransferAsset L st assetID newOwner =
     (case ReadAsset L st assetID of
        Inl err \<Rightarrow> (Inl err, st)
      | Inr asset \<Rightarrow>
          (case json_Marshal L (asset\<lparr>Owner := newOwner\<rparr>) of
             Inl err \<Rightarrow> (Inl err, st)
           | Inr assetBytes \<Rightarrow>
               (case PutState st assetID assetBytes of
                  Inl err \<Rightarrow> (Inl err, st)
                | Inr st1 \<Rightarrow> (Inr (), st1))))"

text \<open>\<open>constructQueryResponseFromIterator\<close>: \<open>var assets []*Asset\<close> starts as the nil
  slice and grows by \<open>append\<close>.\<close>

fun drainAssets :: "lib \<Rightarrow> (error + string \<times> bytes) list \<Rightarrow> Asset slice \<Rightarrow> error + Asset slice" where
  "drainAssets L [] assets = Inr assets"
| "drainAssets L (it # its) assets =
     (case it of
        Inl err \<Rightarrow> Inl err
      | Inr queryResult \<Rightarrow>
          (case json_Unmarshal L (snd queryResult) of
             Inl err \<Rightarrow> Inl err
           | Inr asset \<Rightarrow> drainAssets L its (append_slice assets asset)))"

definition constructQueryResponseFromIterator ::
    "lib \<Rightarrow> (error + string \<times> bytes) list \<Rightarrow> error + Asset slice" where
  "constructQueryResponseFromIterator L resultsIterator = drainAssets L resultsIterator None"

definition GetAssetsByRange :: "lib \<Rightarrow> stub \<Rightarrow> string \<Rightarrow> string \<Rightarrow> error + Asset slice" where
  "GetAssetsByRange L st startKey endKey =
     (case GetStateByRange st startKey endKey of
        Inl err \<Rightarrow> Inl err
      | Inr resultsIterator \<Rightarrow>
          (case constructQueryResponseFromIterator L resultsIterator of
             Inl err \<Rightarrow> Inl err
           | Inr assets \<Rightarrow> Inr assets))"

text \<open>The loop of TransferAssetByColor over the entries of the index iterator.\<close>

fun transferLoop ::
    "lib \<Rightarrow> stub \<Rightarrow> string \<Rightarrow> (error + string \<times> bytes) list \<Rightarrow> (error + unit) \<times> stub" where
  "transferLoop L st newOwner [] = (Inr (), st)"
| "transferLoop L st newOwner (it # its) =
     (case it of
        Inl err \<Rightarrow> (Inl err, st)
      | Inr responseRange \<Rightarrow>
          (case SplitCompositeKey (fst responseRange) of
             Inl err \<Rightarrow> (Inl err, st)
           | Inr (objectType, compositeKeyParts) \<Rightarrow>
               if length compositeKeyParts > 1 then
                 (let returnedAssetID = compositeKeyParts ! 1 in
                  (case ReadAsset L st returnedAssetID of
                     Inl err \<Rightarrow> (Inl err, st)
                   | Inr asset \<Rightarrow>
                       (case json_Marshal L (asset\<lparr>Owner := newOwner\<rparr>) of
                          Inl err \<Rightarrow> (Inl err, st)
                        | Inr assetBytes \<Rightarrow>
                            (case PutState st returnedAssetID assetBytes of
                               Inl err \<Rightarrow>
                                 (Inl (''transfer failed for asset '' @ returnedAssetID
                                       @ '': '' @ err), st)
                             | Inr st1 \<Rightarrow> transferLoop L st1 newOwner its))))
               else transferLoop L st newOwner its))"

definition TransferAssetByColor ::
    "lib \<Rightarrow> stub \<Rightarrow> string \<Rightarrow> string \<Rightarrow> (error + unit) \<times> stub" where
  "TransferAssetByColor L st color newOwner =
     (case GetStateByPartialCompositeKey st index [color] of
        Inl err \<Rightarrow> (Inl err, st)
      | Inr coloredAssetResultsIterator \<Rightarrow>
          transferLoop L st newOwner coloredAssetResultsIterator)"

definition getQueryResultForQueryString :: "lib \<Rightarrow> stub \<Rightarrow> string \<Rightarrow> error + Asset slice" where
  "getQueryResultForQueryString L st queryString =
     (case GetQueryResult st queryString of
        Inl err \<Rightarrow> Inl err
      | Inr resultsIterator \<Rightarrow>
          (case constructQueryResponseFromIterator L resultsIterator of
             Inl err \<Rightarrow> Inl err
           | Inr assets \<Rightarrow> Inr assets))"

text \<open>The query string of QueryAssetsByOwner:
  \<open>fmt.Sprintf(`{"selector":{"docType":"asset","owner":"%s"}}`, owner)\<close>; the verb
  \<open>%s\<close> copies the bytes of \<open>owner\<close> as they are.\<close>

definition ownerQueryString :: "string \<Rightarrow> string" where
  \<open>ownerQueryString owner = ''{"selector":{"docType":"asset","owner":"'' @ owner @ ''"}}''\<close>

definition QueryAssetsByOwner :: "lib \<Rightarrow> stub \<Rightarrow> string \<Rightarrow> error + Asset slice" where
  "QueryAssetsByOwner L st owner =
     (let queryString = ownerQueryString owner in
      (case getQueryResultForQueryString L st queryString of
         Inl err \<Rightarrow> Inl err
       | Inr assets \<Rightarrow> Inr assets))"

definition QueryAssets :: "lib \<Rightarrow> stub \<Rightarrow> string \<Rightarrow> error + Asset slice" where
  "QueryAssets L st queryString =
     (case getQueryResultForQueryString L st queryString of
        Inl err \<Rightarrow> Inl err
      | Inr assets \<Rightarrow> Inr assets)"

text \<open>The loop of GetAssetHistory. The record of an entry with an empty value is the
  Asset literal that sets only the ID.\<close>

fun historyLoop ::
    "lib \<Rightarrow> string \<Rightarrow> (error + KeyModification) list \<Rightarrow> HistoryQueryResult slice
       \<Rightarrow> error + HistoryQueryResult slice" where
  "historyLoop L assetID [] records = Inr records"
| "historyLoop L assetID (it # its) records =
     (case it of
        Inl err \<Rightarrow> Inl err
      | Inr response \<Rightarrow>
          (case (if length (km_Value response) > 0 then json_Unmarshal L (km_Value response)
                 else Inr \<lparr>DocType = [], ID = assetID, Color = [], Size = 0, Owner = [],
                            AppraisedValue = 0\<rparr>) of
             Inl err \<Rightarrow> Inl err
           | Inr asset \<Rightarrow>
               (case ptypes_Timestamp L (km_Timestamp response) of
                  Inl err \<Rightarrow> Inl err
                | Inr timestamp \<Rightarrow>
                    historyLoop L assetID its
                      (append_slice records
                         \<lparr>Record = asset, TxId = km_TxId response, Timestamp = timestamp,
                          IsDelete = km_IsDelete response\<rparr>))))"

definition GetAssetHistory :: "lib \<Rightarrow> stub \<Rightarrow> string \<Rightarrow> error + HistoryQueryResult slice" where
  "GetAssetHistory L st assetID =
     (case GetHistoryForKey st assetID of
        Inl err \<Rightarrow> Inl err
      | Inr resultsIterator \<Rightarrow> historyLoop L assetID resultsIterator None)"

text \<open>The loop of InitLedger over its literal assets (the local \<open>assets\<close>).\<close>

fun createLoop :: "lib \<Rightarrow> stub \<Rightarrow> Asset list \<Rightarrow> (error + unit) \<times> stub" where
  "createLoop L st [] = (Inr (), st)"
| "createLoop L st (asset # assets) =
     (case CreateAsset L st (ID asset) (Color asset) (Size asset) (Owner asset)
             (AppraisedValue asset) of
        (Inl err, st1) \<Rightarrow> (Inl err, st1)
      | (Inr u, st1) \<Rightarrow> createLoop L st1 assets)"

definition InitLedger_assets :: "Asset list" where
  "InitLedger_assets =
     [\<lparr>DocType = ''asset'', ID = ''asset1'', Color = ''blue'', Size = 5, Owner = ''Tomoko'',
       AppraisedValue = 300\<rparr>,
      \<lparr>DocType = ''asset'', ID = ''asset2'', Color = ''red'', Size = 5, Owner = ''Brad'',
       AppraisedValue = 400\<rparr>,
      \<lparr>DocType = ''asset'', ID = ''asset3'', Color = ''green'', Size = 10,
       Owner = ''Jin Soo'', AppraisedValue = 500\<rparr>,
      \<lparr>DocType = ''asset'', ID = ''asset4'', Color = ''yellow'', Size = 10, Owner = ''Max'',
       AppraisedValue = 600\<rparr>,
      \<lparr>DocType = ''asset'', ID = ''asset5'', Color = ''black'', Size = 15,
       Owner = ''Adriana'', AppraisedValue = 700\<rparr>,
      \<lparr>DocType = ''asset'', ID = ''asset6'', Color = ''white'', Size = 15,
       Owner = ''Michel'', AppraisedValue = 800\<rparr>]"

definition InitLedger :: "lib \<Rightarrow> stub \<Rightarrow> (error + unit) \<times> stub" where
  "InitLedger L st = createLoop L st InitLedger_assets"

section \<open>A reference library\<close>

text \<open>
  A concrete library, used to run the model on closed examples: a JSON writer and reader
  for the Asset layout, and the timestamp conversion. The writer emits the members in the
  order of the struct, escapes the double quote and the backslash, prints the integers
  in decimal, and refuses text with a control character; the reader accepts that layout.
\<close>

definition plain_text :: "string \<Rightarrow> bool" where
  "plain_text s = list_all (\<lambda>c. 0x20 \<le> (of_char c :: nat)) s"

fun quote_body :: "string \<Rightarrow> string" where
  "quote_body [] = []"
| "quote_body (c # cs) =
     (if c = CHR 0x22 then [CHR 0x5C, CHR 0x22]
      else if c = CHR 0x5C then [CHR 0x5C, CHR 0x5C]
      else [c]) @ quote_body cs"

definition json_quote :: "string \<Rightarrow> string" where
  "json_quote s = CHR 0x22 # quote_body s @ [CHR 0x22]"

text \<open>The character a two-character escape stands for (\<open>\u\<close> escapes are outside the
  subset read here).\<close>

definition unescape :: "char \<Rightarrow> char option" where
  "unescape e =
     (if e = CHR 0x22 then Some (CHR 0x22)
      else if e = CHR 0x5C then Some (CHR 0x5C)
      else if e = CHR ''/'' then Some (CHR ''/'')
      else if e = CHR ''b'' then Some (CHR 0x08)
      else if e = CHR ''f'' then Some (CHR 0x0C)
      else if e = CHR ''n'' then Some (CHR 0x0A)
      else if e = CHR ''r'' then Some (CHR 0x0D)
      else if e = CHR ''t'' then Some (CHR 0x09)
      else None)"

text \<open>Reading a JSON string after its opening quote: the text up to the first unescaped
  double quote, decoded, and the input after that quote. A raw control character or an
  unknown escape is an error.\<close>

fun scan_string_body :: "string \<Rightarrow> (string \<times> string) option" where
  "scan_string_body [] = None"
| "scan_string_body (c # cs) =
     (if c = CHR 0x22 then Some ([], cs)
      else if c = CHR 0x5C then
        (case cs of
           [] \<Rightarrow> None
         | e # r \<Rightarrow>
             (case unescape e of
                None \<Rightarrow> None
              | Some d \<Rightarrow>
                  (case scan_string_body r of
                     None \<Rightarrow> None
                   | Some (s, rest) \<Rightarrow> Some (d # s, rest))))
      else if (of_char c :: nat) < 0x20 then None
      else (case scan_string_body cs of
              None \<Rightarrow> None
            | Some (s, rest) \<Rightarrow> Some (c # s, rest)))"

definition scan_string :: "string \<Rightarrow> (string \<times> string) option" where
  "scan_string s =
     (case s of [] \<Rightarrow> None | c # cs \<Rightarrow> if c = CHR 0x22 then scan_string_body cs else None)"

definition expect :: "string \<Rightarrow> string \<Rightarrow> string option" where
  "expect lit s = (if prefix lit s then Some (drop (length lit) s) else None)"

definition digit_char :: "nat \<Rightarrow> char" where
  "digit_char n = ''0123456789'' ! n"

definition is_digit :: "char \<Rightarrow> bool" where
  "is_digit c = (48 \<le> (of_char c :: nat) \<and> (of_char c :: nat) \<le> 57)"

definition digit_val :: "char \<Rightarrow> nat" where
  "digit_val c = of_char c - 48"

fun show_nat :: "nat \<Rightarrow> string" where
  "show_nat n = (if n < 10 then [digit_char n] else show_nat (n div 10) @ [digit_char (n mod 10)])"

definition show_int :: "int \<Rightarrow> string" where
  "show_int i = (if i < 0 then CHR ''-'' # show_nat (nat (- i)) else show_nat (nat i))"

fun scan_digits :: "nat \<Rightarrow> string \<Rightarrow> nat \<times> string" where
  "scan_digits acc [] = (acc, [])"
| "scan_digits acc (c # cs) =
     (if is_digit c then scan_digits (acc * 10 + digit_val c) cs else (acc, c # cs))"

definition digits_value :: "nat \<Rightarrow> string \<Rightarrow> nat" where
  "digits_value acc ds = foldl (\<lambda>a c. a * 10 + digit_val c) acc ds"

definition scan_int :: "string \<Rightarrow> (int \<times> string) option" where
  "scan_int s =
     (case s of
        [] \<Rightarrow> None
      | c # cs \<Rightarrow>
          if c = CHR ''-'' then
            (case cs of
               [] \<Rightarrow> None
             | d # r \<Rightarrow>
                 if is_digit d then Some (- int (fst (scan_digits 0 cs)), snd (scan_digits 0 cs))
                 else None)
          else if is_digit c then Some (int (fst (scan_digits 0 s)), snd (scan_digits 0 s))
          else None)"

definition in_int64 :: "int \<Rightarrow> bool" where
  "in_int64 i = (- (2 ^ 63) \<le> i \<and> i < 2 ^ 63)"

definition parse_asset :: "bytes \<Rightarrow> Asset option" where
  \<open>parse_asset b = do {
     r1 \<leftarrow> expect ''{"docType":'' b;
     (docType, r2) \<leftarrow> scan_string r1;
     r3 \<leftarrow> expect '',"ID":'' r2;
     (ident, r4) \<leftarrow> scan_string r3;
     r5 \<leftarrow> expect '',"color":'' r4;
     (color, r6) \<leftarrow> scan_string r5;
     r7 \<leftarrow> expect '',"size":'' r6;
     (size', r8) \<leftarrow> scan_int r7;
     r9 \<leftarrow> expect '',"owner":'' r8;
     (owner, r10) \<leftarrow> scan_string r9;
     r11 \<leftarrow> expect '',"appraisedValue":'' r10;
     (appraisedValue, r12) \<leftarrow> scan_int r11;
     (if r12 = ''}'' \<and> in_int64 size' \<and> in_int64 appraisedValue
      then Some \<lparr>DocType = docType, ID = ident, Color = color, Size = word_of_int size',
                  Owner = owner, AppraisedValue = word_of_int appraisedValue\<rparr>
      else None)
   }\<close>

definition ref_Marshal :: "Asset \<Rightarrow> error + bytes" where
  \<open>ref_Marshal a =
     (if plain_text (DocType a) \<and> plain_text (ID a) \<and> plain_text (Color a)
           \<and> plain_text (Owner a)
      then Inr (''{"docType":'' @ json_quote (DocType a)
                @ '',"ID":'' @ json_quote (ID a)
                @ '',"color":'' @ json_quote (Color a)
                @ '',"size":'' @ show_int (sint (Size a))
                @ '',"owner":'' @ json_quote (Owner a)
                @ '',"appraisedValue":'' @ show_int (sint (AppraisedValue a))
                @ ''}'')
      else Inl ''json: control character in text'')\<close>

definition ref_Unmarshal :: "bytes \<Rightarrow> error + Asset" where
  "ref_Unmarshal b =
     (case parse_asset b of
        None \<Rightarrow> Inl ''json: cannot unmarshal into Go value of type Asset''
      | Some a \<Rightarrow> Inr a)"

text \<open>\<open>ptypes.Timestamp\<close>: a nil timestamp, seconds outside the years 1 to 9999 and
  nanoseconds outside [0, 1e9) are errors.\<close>

definition ref_Timestamp :: "pb_timestamp option \<Rightarrow> error + gotime" where
  "ref_Timestamp ts =
     (case ts of
        None \<Rightarrow> Inl ''timestamp: nil Timestamp''
      | Some t \<Rightarrow>
          if sint (seconds t) < - 62135596800 then Inl ''timestamp: before 0001-01-01''
          else if sint (seconds t) \<ge> 253402300800 then Inl ''timestamp: after 10000-01-01''
          else if sint (nanos t) < 0 \<or> sint (nanos t) \<ge> 1000000000
            then Inl ''timestamp: nanos not in range [0, 1e9)''
          else Inr \<lparr>unix_sec = sint (seconds t), nsec = sint (nanos t)\<rparr>)"

definition ref_lib :: lib where
  "ref_lib = \<lparr>json_Marshal = ref_Marshal, json_Unmarshal = ref_Unmarshal,
              ptypes_Timestamp = ref_Timestamp\<rparr>"

text \<open>A host that never fails, over a given world state, with no rich-query backend
  and no history.\<close>

definition quiet_stub :: "(string \<times> bytes) list \<Rightarrow> stub" where
  "quiet_stub w =
     \<lparr>world = w, get_fault = (\<lambda>k. None), put_fault = (\<lambda>k. None), del_fault = (\<lambda>k. None),
      scan_fault = (\<lambda>a b. None), next_fault = (\<lambda>k. None),
      rich_query = (\<lambda>q. Inl ''ExecuteQuery not supported for leveldb''),
      history = (\<lambda>k. Inr [])\<rparr>"

section \<open>Properties of the ledger\<close>

text \<open>What the contract needs from \<open>encoding/json\<close>: an Asset comes back unchanged from its
  encoding, and the encoding is not empty. The standard library meets this when the text
  fields are valid UTF-8 (it replaces invalid bytes).\<close>

definition roundtrips :: "lib \<Rightarrow> Asset \<Rightarrow> bool" where
  "roundtrips L a =
     (\<forall>b. json_Marshal L a = Inr b \<longrightarrow> b \<noteq> [] \<and> json_Unmarshal L b = Inr a)"

definition valid_attr :: "string \<Rightarrow> bool" where
  "valid_attr s = (validateCompositeKeyAttribute s = Inr ())"

text \<open>The weaker contract the index needs: the ID and the color of an Asset whose ID and
  color are valid composite-key attributes survive the encoding, and the one-byte index
  marker is not the encoding of any Asset.\<close>

definition json_contract :: "lib \<Rightarrow> bool" where
  "json_contract L =
     ((\<forall>a b. valid_attr (ID a) \<and> valid_attr (Color a) \<and> json_Marshal L a = Inr b \<longrightarrow>
          b \<noteq> [] \<and> (\<exists>a'. json_Unmarshal L b = Inr a' \<and> ID a' = ID a \<and> Color a' = Color a))
      \<and> (\<exists>e. json_Unmarshal L [CHR 0x00] = Inl e))"

text \<open>A simple key is a non-empty key outside the composite-key namespace; the Assets
  live under simple keys.\<close>

definition simple_key :: "string \<Rightarrow> bool" where
  "simple_key k = (k \<noteq> [] \<and> hd k \<noteq> CHR 0x00)"

definition asset_at :: "lib \<Rightarrow> (string \<times> bytes) list \<Rightarrow> string \<Rightarrow> Asset option" where
  "asset_at L w k =
     (if simple_key k then
        (case map_of w k of
           None \<Rightarrow> None
         | Some v \<Rightarrow> (case json_Unmarshal L v of Inl e \<Rightarrow> None | Inr a \<Rightarrow> Some a))
      else None)"

definition assets_of_color :: "lib \<Rightarrow> (string \<times> bytes) list \<Rightarrow> string \<Rightarrow> string set" where
  "assets_of_color L w c = {k. \<exists>a. asset_at L w k = Some a \<and> Color a = c}"

definition color_prefix :: "string \<Rightarrow> string" where
  "color_prefix c = compositeKeyNamespace @ index @ [minUnicodeRuneValue] @ c @ [minUnicodeRuneValue]"

definition index_key :: "string \<Rightarrow> string \<Rightarrow> string" where
  "index_key c k = color_prefix c @ k @ [minUnicodeRuneValue]"

text \<open>The keys the index scan of a color enumerates.\<close>

definition index_entries :: "(string \<times> bytes) list \<Rightarrow> string \<Rightarrow> string set" where
  "index_entries w c =
     fst ` set (range_entries w (color_prefix c) (color_prefix c @ maxUnicodeRuneValue))"

text \<open>The invariant of the secondary index: every Asset has a color the index can hold,
  and for every such color the index entries of the color and the Assets of the color
  correspond one to one, an Asset under key \<open>k\<close> to the entry \<open>index_key c k\<close>.\<close>

definition index_consistent :: "lib \<Rightarrow> (string \<times> bytes) list \<Rightarrow> bool" where
  "index_consistent L w =
     ((\<forall>k a. asset_at L w k = Some a \<longrightarrow> valid_attr (Color a))
      \<and> (\<forall>c. valid_attr c \<longrightarrow>
            bij_betw (index_key c) (assets_of_color L w c) (index_entries w c)))"

text \<open>The shape of every entry of a ledger the contract has written: a simple key holds
  the encoding of an Asset with that ID and has its index entry; any other key is the
  index entry of an Asset and holds the marker.\<close>

definition ledger_wf :: "lib \<Rightarrow> (string \<rightharpoonup> bytes) \<Rightarrow> bool" where
  "ledger_wf L m =
     (\<forall>k v. m k = Some v \<longrightarrow>
        (simple_key k \<and>
           (\<exists>a. json_Unmarshal L v = Inr a \<and> ID a = k \<and> valid_attr k \<and> valid_attr (Color a)
                \<and> m (index_key (Color a) k) = Some [CHR 0x00]))
        \<or> (\<not> simple_key k \<and> v = [CHR 0x00] \<and>
           (\<exists>c i. k = index_key c i \<and> valid_attr c \<and> valid_attr i \<and> simple_key i \<and>
                  (\<exists>v' a. m i = Some v' \<and> json_Unmarshal L v' = Inr a \<and> Color a = c))))"

text \<open>The ledgers the contract can produce: from the empty ledger, by operations that
  complete without error (the host discards the writes of the others); between two
  invocations the host may change how it fails and what its iterators hold. ReadAsset
  writes nothing.\<close>

inductive reachable :: "lib \<Rightarrow> stub \<Rightarrow> bool" for L :: lib where
  empty: "world st = [] \<Longrightarrow> reachable L st"
| host: "reachable L st \<Longrightarrow> world st' = world st \<Longrightarrow> reachable L st'"
| create: "reachable L st \<Longrightarrow> CreateAsset L st assetID color size' owner appraisedValue = (Inr u, st')
     \<Longrightarrow> reachable L st'"
| delete: "reachable L st \<Longrightarrow> DeleteAsset L st assetID = (Inr u, st') \<Longrightarrow> reachable L st'"
| transfer: "reachable L st \<Longrightarrow> TransferAsset L st assetID newOwner = (Inr u, st')
     \<Longrightarrow> reachable L st'"
| transfer_by_color: "reachable L st \<Longrightarrow> TransferAssetByColor L st color newOwner = (Inr u, st')
     \<Longrightarrow> reachable L st'"
| init_ledger: "reachable L st \<Longrightarrow> InitLedger L st = (Inr u, st') \<Longrightarrow> reachable L st'"

text \<open>The owner a JSON reader finds in a query string of the layout
  \<open>{"selector":{"docType":"asset","owner":<string>}}\<close>; \<open>None\<close> when the string is not
  of that layout, in particular when it is not well-formed JSON.\<close>

definition selector_owner :: "string \<Rightarrow> string option" where
  \<open>selector_owner q = do {
     r \<leftarrow> expect ''{"selector":{"docType":"asset","owner":'' q;
     (s, rest) \<leftarrow> scan_string r;
     (if rest = ''}}'' then Some s else None)
   }\<close>

text \<open>The result the specification describes for one history entry: the entry's
  transaction id and delete flag, its converted timestamp, and as record the placeholder
  holding only the id for a delete, the decoded value otherwise.\<close>

definition spec_history_result ::
    "lib \<Rightarrow> string \<Rightarrow> KeyModification \<Rightarrow> HistoryQueryResult \<Rightarrow> bool" where
  "spec_history_result L assetID e r =
     (TxId r = km_TxId e \<and> IsDelete r = km_IsDelete e
      \<and> ptypes_Timestamp L (km_Timestamp e) = Inr (Timestamp r)
      \<and> (if km_IsDelete e
          then Record r = \<lparr>DocType = [], ID = assetID, Color = [], Size = 0, Owner = [],
                            AppraisedValue = 0\<rparr>
          else json_Unmarshal L (km_Value e) = Inr (Record r)))"

section \<open>Closed examples\<close>

definition asset1 :: Asset where
  "asset1 = \<lparr>DocType = ''asset'', ID = ''asset1'', Color = ''blue'', Size = 5,
             Owner = ''Tomoko'', AppraisedValue = 300\<rparr>"

definition asset1_bytes :: bytes where
  \<open>asset1_bytes =
     ''{"docType":"asset","ID":"asset1","color":"blue","size":5,"owner":"Tomoko","appraisedValue":300}''\<close>

text \<open>The ledger after \<open>CreateAsset("asset1", "blue", 5, "Tomoko", 300)\<close> on the empty one.\<close>

definition ledger1 :: stub where
  "ledger1 = quiet_stub [(''asset1'', asset1_bytes), (index_key ''blue'' ''asset1'', [CHR 0x00])]"

text \<open>The same ledger after \<open>TransferAsset("asset1", "Alice")\<close>.\<close>

definition asset1_alice_bytes :: bytes where
  \<open>asset1_alice_bytes =
     ''{"docType":"asset","ID":"asset1","color":"blue","size":5,"owner":"Alice","appraisedValue":300}''\<close>

definition ledger1_alice :: stub where
  "ledger1_alice =
     quiet_stub [(''asset1'', asset1_alice_bytes), (index_key ''blue'' ''asset1'', [CHR 0x00])]"

definition asset2_bytes :: bytes where
  \<open>asset2_bytes =
     ''{"docType":"asset","ID":"asset2","color":"red","size":5,"owner":"Brad","appraisedValue":400}''\<close>

text \<open>A ledger that already holds a record under asset3, and the same ledger after
  asset1 and asset2 have been created on it.\<close>

definition ledger_with_asset3 :: stub where
  "ledger_with_asset3 = quiet_stub [(''asset3'', ''{}'')]"

definition ledger_stopped_at_asset3 :: stub where
  "ledger_stopped_at_asset3 =
     quiet_stub [(''asset3'', ''{}''),
                 (''asset1'', asset1_bytes), (index_key ''blue'' ''asset1'', [CHR 0x00]),
                 (''asset2'', asset2_bytes), (index_key ''red'' ''asset2'', [CHR 0x00])]"

text \<open>The history of asset1 after a create, a transfer and a delete, and a history
  with a corrupt value.\<close>

definition history1 :: "KeyModification list" where
  "history1 =
     [\<lparr>km_TxId = ''tx1'', km_Value = asset1_bytes,
       km_Timestamp = Some \<lparr>seconds = 1700000000, nanos = 0\<rparr>, km_IsDelete = False\<rparr>,
      \<lparr>km_TxId = ''tx2'', km_Value = asset1_alice_bytes,
       km_Timestamp = Some \<lparr>seconds = 1700000060, nanos = 500\<rparr>, km_IsDelete = False\<rparr>,
      \<lparr>km_TxId = ''tx3'', km_Value = [],
       km_Timestamp = Some \<lparr>seconds = 1700000120, nanos = 0\<rparr>, km_IsDelete = True\<rparr>]"

definition history_stub :: stub where
  "history_stub =
     (quiet_stub [])\<lparr>history := (\<lambda>k.
        if k = ''asset1'' then Inr (map Inr history1)
        else if k = ''broken'' then
          Inr [Inr \<lparr>km_TxId = ''tx9'', km_Value = ''{'',
                    km_Timestamp = Some \<lparr>seconds = 1700000000, nanos = 0\<rparr>,
                    km_IsDelete = False\<rparr>]
        else Inr [])\<rparr>"

definition history1_results :: "HistoryQueryResult list" where
  "history1_results =
     [\<lparr>Record = asset1, TxId = ''tx1'',
       Timestamp = \<lparr>unix_sec = 1700000000, nsec = 0\<rparr>, IsDelete = False\<rparr>,
      \<lparr>Record = asset1\<lparr>Owner := ''Alice''\<rparr>, TxId = ''tx2'',
       Timestamp = \<lparr>unix_sec = 1700000060, nsec = 500\<rparr>, IsDelete = False\<rparr>,
      \<lparr>Record = \<lparr>DocType = [], ID = ''asset1'', Color = [], Size = 0, Owner = [],
                  AppraisedValue = 0\<rparr>, TxId = ''tx3'',
       Timestamp = \<lparr>unix_sec = 1700000120, nsec = 0\<rparr>, IsDelete = True\<rparr>]"

text \<open>The ledger of asset1 on a host that refuses every write.\<close>

definition ledger1_readonly :: stub where
  "ledger1_readonly = ledger1\<lparr>put_fault := (\<lambda>k. Some ''read-only file system'')\<rparr>"

section \<open>Facts about the stub\<close>

lemmas shim_defs = GetState_def PutState_def DelState_def AssetExists_def ReadAsset_def
  CreateCompositeKey_def validateCompositeKeyAttribute_def index_def minUnicodeRuneValue_def
  maxUnicodeRuneValue_def compositeKeyNamespace_def byte_in_def cont_byte_def quiet_stub_def
  index_key_def color_prefix_def

lemma valid_attr_index: "valid_attr index"
  by (simp add: valid_attr_def validateCompositeKeyAttribute_def index_def
      minUnicodeRuneValue_def maxUnicodeRuneValue_def)

lemma CreateCompositeKey_index:
  "CreateCompositeKey index [c, k] = Inr ck \<longleftrightarrow> valid_attr c \<and> valid_attr k \<and> ck = index_key c k"
proof -
  have i: "validateCompositeKeyAttribute index = Inr ()"
    using valid_attr_index by (simp add: valid_attr_def)
  show ?thesis
    by (auto simp: CreateCompositeKey_def i valid_attr_def index_key_def color_prefix_def
        split: sum.splits)
qed

lemma CreateCompositeKey_partial:
  "CreateCompositeKey index [c] = Inr pk \<longleftrightarrow> valid_attr c \<and> pk = color_prefix c"
proof -
  have i: "validateCompositeKeyAttribute index = Inr ()"
    using valid_attr_index by (simp add: valid_attr_def)
  show ?thesis
    by (auto simp: CreateCompositeKey_def i valid_attr_def color_prefix_def split: sum.splits)
qed

lemma PutState_Inr:
  "PutState st k v = Inr st' \<longleftrightarrow>
     k \<noteq> [] \<and> put_fault st k = None \<and>
     st' = st\<lparr>world := (if v = [] then AList.delete k (world st) else AList.update k v (world st))\<rparr>"
  by (auto simp: PutState_def split: option.splits)

lemma PutState_faults:
  "PutState st k b = Inr st1 \<Longrightarrow> get_fault st1 = get_fault st"
  by (auto simp: PutState_Inr)

lemma DelState_Inr:
  "DelState st k = Inr st' \<longleftrightarrow>
     del_fault st k = None \<and> st' = st\<lparr>world := AList.delete k (world st)\<rparr>"
  by (auto simp: DelState_def split: option.splits)

lemma GetState_Inr: "GetState st k = Inr r \<longleftrightarrow> get_fault st k = None \<and> r = map_of (world st) k"
  by (auto simp: GetState_def split: option.splits)

lemma valid_attr_no_zero: "valid_attr s \<Longrightarrow> CHR 0x00 \<notin> set s"
  by (auto simp: valid_attr_def validateCompositeKeyAttribute_def minUnicodeRuneValue_def
      split: if_splits)

lemma index_key_not_simple: "\<not> simple_key (index_key c k)"
  by (simp add: simple_key_def index_key_def color_prefix_def compositeKeyNamespace_def)

lemma valid_attr_simple: "valid_attr k \<Longrightarrow> k \<noteq> [] \<Longrightarrow> simple_key k"
  using valid_attr_no_zero [of k] by (cases k) (auto simp: simple_key_def)

lemma splitComponents_attr:
  "CHR 0x00 \<notin> set s \<Longrightarrow>
     splitComponents cur (s @ CHR 0x00 # rest) = (cur @ s) # splitComponents [] rest"
  by (induction s arbitrary: cur) (auto simp: minUnicodeRuneValue_def)

lemma SplitCompositeKey_index_key:
  assumes "valid_attr c" "valid_attr k"
  shows "SplitCompositeKey (index_key c k) = Inr (index, [c, k])"
proof -
  have i: "CHR 0x00 \<notin> set index" by (rule valid_attr_no_zero [OF valid_attr_index])
  have "tl (index_key c k) = index @ CHR 0x00 # c @ CHR 0x00 # k @ CHR 0x00 # []"
    by (simp add: index_key_def color_prefix_def compositeKeyNamespace_def
        minUnicodeRuneValue_def)
  then show ?thesis
    using i valid_attr_no_zero [OF assms(1)] valid_attr_no_zero [OF assms(2)]
    by (simp add: SplitCompositeKey_def splitComponents_attr)
qed

lemma range_entries_keys:
  "fst ` set (range_entries w startKey endKey)
     = {k \<in> fst ` set w. in_range startKey endKey k}"
proof -
  have "fst ` set (range_entries w startKey endKey)
      = {k \<in> fst ` set (AList.clearjunk w). in_range startKey endKey k}"
    by (force simp: range_entries_def)
  then show ?thesis by (simp only: dom_clearjunk)
qed

lemma range_entries_empty:
  "range_entries w startKey endKey = [] \<longleftrightarrow>
     (\<forall>k \<in> fst ` set w. \<not> in_range startKey endKey k)"
proof -
  have "range_entries w startKey endKey = []
      \<longleftrightarrow> fst ` set (range_entries w startKey endKey) = {}"
    by simp
  then show ?thesis by (simp only: range_entries_keys) blast
qed

lemma range_entries_distinct: "distinct (map fst (range_entries w startKey endKey))"
proof -
  have "distinct (map fst (sort_key fst (AList.clearjunk w)))"
    by (simp add: distinct_map inj_on_def)
       (metis distinct_clearjunk distinct_map inj_on_def)
  then show ?thesis
    unfolding range_entries_def by (rule distinct_map_filter)
qed

lemma scan_color_Inr:
  assumes "GetStateByPartialCompositeKey st index [color] = Inr its"
  shows "valid_attr color \<and>
     its = map (\<lambda>kv. case next_fault st (fst kv) of Some e \<Rightarrow> Inl e | None \<Rightarrow> Inr kv)
             (range_entries (world st) (color_prefix color)
                (color_prefix color @ maxUnicodeRuneValue))"
proof -
  from assms obtain pk where pk: "CreateCompositeKey index [color] = Inr pk"
    and h: "handleGetStateByRange st pk (pk @ maxUnicodeRuneValue) = Inr its"
    by (auto simp: GetStateByPartialCompositeKey_def split: sum.splits)
  from pk have v: "valid_attr color" and p: "pk = color_prefix color"
    by (simp_all add: CreateCompositeKey_partial)
  from h show ?thesis
    unfolding p using v
    by (auto simp: handleGetStateByRange_def split: option.splits)
qed

lemma fetched_all_Inr:
  assumes "\<forall>it \<in> set (map (\<lambda>kv. case nf (fst kv) of Some e \<Rightarrow> Inl e | None \<Rightarrow> Inr kv) kvs).
             \<exists>kv. it = Inr kv"
  shows "map (\<lambda>kv. case nf (fst kv) of Some e \<Rightarrow> Inl e | None \<Rightarrow> Inr kv) kvs = map Inr kvs"
  using assms by (induction kvs) (auto split: option.splits)

section \<open>Facts about keys\<close>

lemma range_prefix: "xs \<le> k \<Longrightarrow> k < xs @ m \<Longrightarrow> prefix xs (k::string)"
proof (induction xs arbitrary: k)
  case Nil
  then show ?case by simp
next
  case (Cons x xs)
  then show ?case by (cases k) (auto split: if_splits)
qed

lemma prefix_le: "prefix xs k \<Longrightarrow> xs \<le> (k::string)"
  by (induction xs arbitrary: k) (auto simp: prefix_def)

lemma append_less_cancel: "(xs @ a < xs @ b) = (a < (b::string))"
  by (induction xs) auto

lemma char_le_iff: "(c \<le> d) = ((of_char c::nat) \<le> of_char d)"
  by (simp add: less_eq_char_def)

lemma char_less_iff: "(c < d) = ((of_char c::nat) < of_char d)"
  by (simp add: less_char_def)

text \<open>A valid UTF-8 string that starts with the byte F4 goes on with at most 8F BF BF.\<close>

lemma utf8_valid_F4:
  assumes "utf8_valid (c # cs)" "\<not> (of_char c :: nat) < 0xF4"
  shows "c = CHR 0xF4 \<and> (\<exists>c1 c2 c3 r. cs = c1 # c2 # c3 # r \<and> c1 \<le> CHR 0x8F
           \<and> c2 \<le> CHR 0xBF \<and> c3 \<le> CHR 0xBF)"
proof -
  from assms have b: "byte_in 0xF0 0xF4 c"
    by (simp add: byte_in_def split: if_splits)
  with assms(2) have n: "(of_char c :: nat) = 0xF4" by (simp add: byte_in_def)
  then have "(of_char c :: nat) = of_char (CHR 0xF4)" by simp
  then have c: "c = CHR 0xF4" by (simp only: of_char_eq_iff)
  from assms(1) n obtain c1 c2 c3 r where cs: "cs = c1 # c2 # c3 # r"
     and "byte_in 0x80 0x8F c1" "cont_byte c2" "cont_byte c3"
    by (simp add: byte_in_def split: list.splits)
  then have "c1 \<le> CHR 0x8F \<and> c2 \<le> CHR 0xBF \<and> c3 \<le> CHR 0xBF"
    by (simp add: char_le_iff byte_in_def cont_byte_def)
  with c cs show ?thesis by blast
qed

text \<open>Every valid attribute, closed by its zero byte, sorts below U+10FFFF: the range
  of a partial composite key holds every key that extends it by valid attributes.\<close>

lemma valid_below_max:
  assumes "utf8_valid s" "\<not> contains maxUnicodeRuneValue s"
  shows "s @ [CHR 0x00] < maxUnicodeRuneValue"
proof (cases s)
  case Nil
  then show ?thesis by (simp add: maxUnicodeRuneValue_def char_less_iff)
next
  case (Cons c cs)
  show ?thesis
  proof (cases "(of_char c :: nat) < 0xF4")
    case True
    then have "c < CHR 0xF4" by (simp add: char_less_iff)
    then show ?thesis using Cons by (simp add: maxUnicodeRuneValue_def)
  next
    case False
    with assms(1) Cons obtain c1 c2 c3 r where c: "c = CHR 0xF4" and cs: "cs = c1 # c2 # c3 # r"
      and le: "c1 \<le> CHR 0x8F" "c2 \<le> CHR 0xBF" "c3 \<le> CHR 0xBF"
      using utf8_valid_F4 [of c cs] by blast
    from assms(2) Cons c cs have np: "\<not> (c1 = CHR 0x8F \<and> c2 = CHR 0xBF \<and> c3 = CHR 0xBF)"
      by (auto simp: maxUnicodeRuneValue_def)
    from le np have "c1 < CHR 0x8F \<or> c1 = CHR 0x8F \<and> (c2 < CHR 0xBF \<or> c2 = CHR 0xBF \<and> c3 < CHR 0xBF)"
      by (meson le_less)
    then show ?thesis using Cons c cs by (auto simp: maxUnicodeRuneValue_def)
  qed
qed

lemma valid_attr_below_max: "valid_attr s \<Longrightarrow> s @ [CHR 0x00] < maxUnicodeRuneValue"
  by (rule valid_below_max)
     (auto simp: valid_attr_def validateCompositeKeyAttribute_def split: if_splits)

lemma index_key_in_range:
  assumes "valid_attr k"
  shows "in_range (color_prefix c) (color_prefix c @ maxUnicodeRuneValue) (index_key c k)"
proof -
  have "color_prefix c \<le> index_key c k"
    by (rule prefix_le) (simp add: index_key_def)
  moreover have "index_key c k < color_prefix c @ maxUnicodeRuneValue"
    using valid_attr_below_max [OF assms]
    by (simp add: index_key_def append_less_cancel minUnicodeRuneValue_def)
  ultimately show ?thesis by (simp add: in_range_def)
qed

lemma in_range_prefix:
  "in_range (color_prefix c) (color_prefix c @ maxUnicodeRuneValue) k \<Longrightarrow> prefix (color_prefix c) k"
  by (auto simp: in_range_def maxUnicodeRuneValue_def intro: range_prefix)

lemma zero_free_prefix:
  "CHR 0x00 \<notin> set c \<Longrightarrow> CHR 0x00 \<notin> set c' \<Longrightarrow> prefix (c @ [CHR 0x00]) (c' @ CHR 0x00 # r)
     \<Longrightarrow> c = c'"
proof (induction c arbitrary: c')
  case Nil
  then show ?case by (cases c') auto
next
  case (Cons x c)
  then show ?case by (cases c') auto
qed

lemma index_key_prefix_color:
  assumes "valid_attr c" "valid_attr c'" "prefix (color_prefix c) (index_key c' k)"
  shows "c = c'"
proof -
  from assms(3) have "prefix (c @ [CHR 0x00]) (c' @ CHR 0x00 # k @ [CHR 0x00])"
    by (simp add: color_prefix_def index_key_def minUnicodeRuneValue_def)
  then show ?thesis
    using valid_attr_no_zero [OF assms(1)] valid_attr_no_zero [OF assms(2)]
    by (rule zero_free_prefix [rotated 2])
qed

lemma index_key_inject:
  assumes "valid_attr c" "valid_attr c'" "index_key c k = index_key c' k'"
  shows "c = c' \<and> k = k'"
proof -
  have "prefix (color_prefix c) (index_key c k)"
    by (simp add: index_key_def)
  then have "prefix (color_prefix c) (index_key c' k')"
    by (simp only: assms(3))
  from index_key_prefix_color [OF assms(1,2) this] have "c = c'" .
  with assms(3) show ?thesis by (simp add: index_key_def)
qed

lemma color_prefix_not_simple: "prefix (color_prefix c) k \<Longrightarrow> \<not> simple_key k"
  by (cases k) (auto simp: color_prefix_def compositeKeyNamespace_def simple_key_def)

section \<open>Facts about the operations\<close>

text \<open>What a successful CreateAsset has checked and written.\<close>

lemma CreateAsset_Inr:
  assumes "CreateAsset L st assetID color size' owner appraisedValue = (Inr u, st')"
  shows "\<exists>b. get_fault st assetID = None \<and> map_of (world st) assetID = None \<and> assetID \<noteq> []
     \<and> valid_attr color \<and> valid_attr assetID
     \<and> json_Marshal L \<lparr>DocType = ''asset'', ID = assetID, Color = color, Size = size',
                         Owner = owner, AppraisedValue = appraisedValue\<rparr> = Inr b
     \<and> st' = st\<lparr>world := AList.update (index_key color assetID) [CHR 0x00]
                   (if b = [] then AList.delete assetID (world st)
                    else AList.update assetID b (world st))\<rparr>"
  using assms
  by (auto simp: CreateAsset_def AssetExists_def GetState_Inr PutState_Inr
      CreateCompositeKey_index Let_def split: sum.splits if_splits)

lemma CreateAsset_stored:
  assumes "CreateAsset L st assetID color size' owner appraisedValue = (Inr u, st')"
    and "json_Marshal L \<lparr>DocType = ''asset'', ID = assetID, Color = color, Size = size',
                         Owner = owner, AppraisedValue = appraisedValue\<rparr> = Inr b"
    and "b \<noteq> []"
  shows "map_of (world st') assetID = Some b \<and> get_fault st' assetID = None"
proof -
  from CreateAsset_Inr [OF assms(1)] assms(2,3) have
    g: "get_fault st assetID = None" and v: "valid_attr assetID" "assetID \<noteq> []" and
    st': "st' = st\<lparr>world := AList.update (index_key color assetID) [CHR 0x00]
                    (AList.update assetID b (world st))\<rparr>"
    by auto
  have "index_key color assetID \<noteq> assetID"
    using valid_attr_simple [OF v] index_key_not_simple [of color assetID] by auto
  then show ?thesis using g by (simp add: st' update_conv')
qed

lemma ReadAsset_Inr:
  "ReadAsset L st k = Inr a \<longleftrightarrow>
     get_fault st k = None \<and> (\<exists>v. map_of (world st) k = Some v \<and> json_Unmarshal L v = Inr a)"
  by (auto simp: ReadAsset_def GetState_def split: option.splits sum.splits)

lemma TransferAsset_Inr:
  "TransferAsset L st assetID newOwner = (Inr u, st') \<longleftrightarrow>
     (\<exists>asset b. ReadAsset L st assetID = Inr asset
        \<and> json_Marshal L (asset\<lparr>Owner := newOwner\<rparr>) = Inr b
        \<and> PutState st assetID b = Inr st')"
  by (auto simp: TransferAsset_def split: sum.splits)

lemma TransferAsset_world:
  "map_of (world (snd (TransferAsset L st assetID newOwner))) k = map_of (world st) k
   \<or> k = assetID"
  by (auto simp: TransferAsset_def PutState_def update_conv' delete_conv'
      split: sum.splits option.splits)

lemma TransferAssetByColor_Inr:
  "TransferAssetByColor L st color newOwner = (Inr u, st') \<longleftrightarrow>
     (\<exists>its. GetStateByPartialCompositeKey st index [color] = Inr its
        \<and> transferLoop L st newOwner its = (Inr u, st'))"
  by (cases "GetStateByPartialCompositeKey st index [color]")
     (simp_all add: TransferAssetByColor_def)

text \<open>What one successful turn of the loop of TransferAssetByColor has done.\<close>

lemma transferLoop_Cons_Inr:
  assumes "transferLoop L st newOwner (it # its) = (Inr u, st')"
  shows "\<exists>kv ot parts. it = Inr kv \<and> SplitCompositeKey (fst kv) = Inr (ot, parts)
     \<and> (if length parts > 1
         then \<exists>a b st1. ReadAsset L st (parts ! 1) = Inr a
                \<and> json_Marshal L (a\<lparr>Owner := newOwner\<rparr>) = Inr b
                \<and> PutState st (parts ! 1) b = Inr st1
                \<and> transferLoop L st1 newOwner its = (Inr u, st')
         else transferLoop L st newOwner its = (Inr u, st'))"
proof (cases it)
  case (Inl e)
  with assms show ?thesis by simp
next
  case (Inr kv)
  show ?thesis
  proof (cases "SplitCompositeKey (fst kv)")
    case (Inl e)
    with assms Inr show ?thesis by simp
  next
    case sp: (Inr p)
    obtain ot parts where p: "p = (ot, parts)" by (cases p)
    show ?thesis
    proof (cases "length parts > 1")
      case False
      with assms Inr sp p show ?thesis by simp
    next
      case True
      show ?thesis
      proof (cases "ReadAsset L st (parts ! 1)")
        case (Inl e)
        with assms Inr sp p True show ?thesis by simp
      next
        case r: (Inr a)
        show ?thesis
        proof (cases "json_Marshal L (a\<lparr>Owner := newOwner\<rparr>)")
          case (Inl e)
          with assms Inr sp p True r show ?thesis by simp
        next
          case m: (Inr b)
          show ?thesis
          proof (cases "PutState st (parts ! 1) b")
            case (Inl e)
            with assms Inr sp p True r m show ?thesis by simp
          next
            case (Inr st1)
            with assms \<open>it = Inr kv\<close> sp p True r m show ?thesis by simp
          qed
        qed
      qed
    qed
  qed
qed

lemma transferLoop_append:
  "transferLoop L st newOwner (xs @ ys) =
     (case transferLoop L st newOwner xs of
        (Inl e, s1) \<Rightarrow> (Inl e, s1)
      | (Inr u, s1) \<Rightarrow> transferLoop L s1 newOwner ys)"
proof (induction xs arbitrary: st)
  case Nil
  then show ?case by simp
next
  case (Cons it xs)
  show ?case
    by (simp add: Cons.IH Let_def split: sum.splits prod.splits)
qed

text \<open>A successful run of the loop has met no failing \<open>Next\<close>.\<close>

lemma transferLoop_all_Inr:
  "transferLoop L st newOwner its = (Inr u, st') \<Longrightarrow> \<forall>it \<in> set its. \<exists>kv. it = Inr kv"
proof (induction its arbitrary: st)
  case Nil
  then show ?case by simp
next
  case (Cons it its)
  from transferLoop_Cons_Inr [OF Cons.prems] obtain kv st1 where
    "it = Inr kv" "transferLoop L st1 newOwner its = (Inr u, st')"
    by (auto split: if_splits)
  with Cons.IH show ?case by auto
qed

lemma createLoop_append:
  "createLoop L st (xs @ ys) =
     (case createLoop L st xs of (Inl e, s1) \<Rightarrow> (Inl e, s1) | (Inr u, s1) \<Rightarrow> createLoop L s1 ys)"
  by (induction xs arbitrary: st) (auto split: prod.splits sum.splits)

lemma QueryAssetsByOwner_delegates:
  "QueryAssetsByOwner L st owner = getQueryResultForQueryString L st (ownerQueryString owner)"
  by (simp add: QueryAssetsByOwner_def split: sum.splits)

lemma historyLoop_append:
  "historyLoop L assetID (xs @ ys) acc =
     (case historyLoop L assetID xs acc of
        Inl e \<Rightarrow> Inl e
      | Inr acc' \<Rightarrow> historyLoop L assetID ys acc')"
  by (induction xs arbitrary: acc) (auto split: sum.splits)

lemma elems_append_slice: "elems (append_slice s x) = elems s @ [x]"
  by (simp add: elems_def append_slice_def split: option.splits)

text \<open>What a successful run of the history loop has appended, entry by entry.\<close>

lemma historyLoop_Inr:
  assumes "historyLoop L assetID its acc = Inr rs"
  shows "\<exists>new. elems rs = elems acc @ new
     \<and> list_all2 (\<lambda>it r. \<exists>e. it = Inr e \<and> TxId r = km_TxId e \<and> IsDelete r = km_IsDelete e
           \<and> ptypes_Timestamp L (km_Timestamp e) = Inr (Timestamp r)
           \<and> (if km_Value e = []
               then Record r = \<lparr>DocType = [], ID = assetID, Color = [], Size = 0,
                                 Owner = [], AppraisedValue = 0\<rparr>
               else json_Unmarshal L (km_Value e) = Inr (Record r))) its new"
  using assms
proof (induction its arbitrary: acc)
  case Nil
  then show ?case by simp
next
  case (Cons it its)
  from Cons.prems obtain e where it: "it = Inr e"
    by (cases it) auto
  from Cons.prems it obtain a where
    a: "(if km_Value e = [] then Inr \<lparr>DocType = [], ID = assetID, Color = [], Size = 0,
           Owner = [], AppraisedValue = 0\<rparr> else json_Unmarshal L (km_Value e)) = Inr a"
    by (auto split: sum.splits if_splits)
  from Cons.prems it a obtain t where t: "ptypes_Timestamp L (km_Timestamp e) = Inr t"
    by (auto split: sum.splits if_splits)
  let ?r = "\<lparr>Record = a, TxId = km_TxId e, Timestamp = t, IsDelete = km_IsDelete e\<rparr>"
  from Cons.prems it a t have "historyLoop L assetID its (append_slice acc ?r) = Inr rs"
    by (auto split: if_splits)
  from Cons.IH [OF this] obtain new where
    n: "elems rs = elems (append_slice acc ?r) @ new" and
    l: "list_all2 (\<lambda>it r. \<exists>e. it = Inr e \<and> TxId r = km_TxId e \<and> IsDelete r = km_IsDelete e
           \<and> ptypes_Timestamp L (km_Timestamp e) = Inr (Timestamp r)
           \<and> (if km_Value e = []
               then Record r = \<lparr>DocType = [], ID = assetID, Color = [], Size = 0,
                                 Owner = [], AppraisedValue = 0\<rparr>
               else json_Unmarshal L (km_Value e) = Inr (Record r))) its new"
    by blast
  have "elems rs = elems acc @ (?r # new)"
    using n by (simp add: elems_append_slice)
  moreover have "\<exists>e'. it = Inr e' \<and> TxId ?r = km_TxId e' \<and> IsDelete ?r = km_IsDelete e'
           \<and> ptypes_Timestamp L (km_Timestamp e') = Inr (Timestamp ?r)
           \<and> (if km_Value e' = []
               then Record ?r = \<lparr>DocType = [], ID = assetID, Color = [], Size = 0,
                                 Owner = [], AppraisedValue = 0\<rparr>
               else json_Unmarshal L (km_Value e') = Inr (Record ?r))"
    using it a t by (auto split: if_splits)
  ultimately show ?case using l
    by (intro exI [of _ "?r # new"]) simp
qed

text \<open>The loop returns when every entry can be converted.\<close>

lemma historyLoop_total:
  assumes "\<forall>it \<in> set its. \<exists>e a t. it = Inr e
            \<and> (km_Value e = [] \<or> json_Unmarshal L (km_Value e) = Inr a)
            \<and> ptypes_Timestamp L (km_Timestamp e) = Inr t"
  shows "\<exists>rs. historyLoop L assetID its acc = Inr rs"
  using assms
proof (induction its arbitrary: acc)
  case Nil
  then show ?case by simp
next
  case (Cons it its)
  then obtain e a t where "it = Inr e"
      "km_Value e = [] \<or> json_Unmarshal L (km_Value e) = Inr a"
      "ptypes_Timestamp L (km_Timestamp e) = Inr t"
    by auto
  moreover from Cons have "\<And>acc'. \<exists>rs. historyLoop L assetID its acc' = Inr rs"
    by simp
  ultimately show ?case by auto
qed

lemma historyLoop_corrupt:
  assumes "Inr e \<in> set its" "km_Value e \<noteq> []" "json_Unmarshal L (km_Value e) = Inl err"
  shows "\<exists>err'. historyLoop L assetID its acc = Inl err'"
  using assms
proof (induction its arbitrary: acc)
  case Nil
  then show ?case by simp
next
  case (Cons it its)
  then show ?case by (auto split: sum.splits)
qed

section \<open>The shape of the ledger is preserved\<close>

lemma marker_not_asset:
  "json_contract L \<Longrightarrow> json_Unmarshal L [CHR 0x00] \<noteq> Inr a"
  by (auto simp: json_contract_def)

text \<open>A key whose value decodes to an Asset is a simple key and holds that Asset's
  record.\<close>

lemma ledger_wf_asset:
  assumes "json_contract L" "ledger_wf L m" "m k = Some v" "json_Unmarshal L v = Inr a"
  shows "simple_key k \<and> ID a = k \<and> valid_attr k \<and> valid_attr (Color a)
     \<and> m (index_key (Color a) k) = Some [CHR 0x00]"
proof -
  from assms(2,3) have
    "(simple_key k \<and>
       (\<exists>a. json_Unmarshal L v = Inr a \<and> ID a = k \<and> valid_attr k \<and> valid_attr (Color a)
            \<and> m (index_key (Color a) k) = Some [CHR 0x00]))
     \<or> (\<not> simple_key k \<and> v = [CHR 0x00])"
    unfolding ledger_wf_def by blast
  then show ?thesis
    using assms(4) marker_not_asset [OF assms(1), of a] by auto
qed

lemma ledger_wf_index:
  assumes "ledger_wf L m" "m k = Some v" "\<not> simple_key k"
  shows "v = [CHR 0x00] \<and>
     (\<exists>c i. k = index_key c i \<and> valid_attr c \<and> valid_attr i \<and> simple_key i \<and>
            (\<exists>v' a. m i = Some v' \<and> json_Unmarshal L v' = Inr a \<and> Color a = c))"
  using assms unfolding ledger_wf_def by blast

lemma ledger_wf_empty: "ledger_wf L Map.empty"
  by (simp add: ledger_wf_def)

lemma ledger_wf_create:
  assumes wf: "ledger_wf L m" and c: "json_contract L"
    and n: "m k = None" and k: "k \<noteq> []" "valid_attr k" and col: "valid_attr c"
    and b: "json_Unmarshal L b = Inr a" "ID a = k" "Color a = c"
  shows "ledger_wf L (m(k \<mapsto> b, index_key c k \<mapsto> [CHR 0x00]))"
  unfolding ledger_wf_def
proof (intro allI impI)
  let ?m = "m(k \<mapsto> b, index_key c k \<mapsto> [CHR 0x00])"
  have sk: "simple_key k" using k by (rule valid_attr_simple [rotated])
  have ne: "index_key c k \<noteq> k" using sk index_key_not_simple [of c k] by auto
  fix x v assume x: "?m x = Some v"
  consider (idx) "x = index_key c k" | (rec) "x = k" | (old) "x \<noteq> index_key c k" "x \<noteq> k"
    by blast
  then show "simple_key x \<and>
           (\<exists>a. json_Unmarshal L v = Inr a \<and> ID a = x \<and> valid_attr x \<and> valid_attr (Color a)
                \<and> ?m (index_key (Color a) x) = Some [CHR 0x00])
        \<or> \<not> simple_key x \<and> v = [CHR 0x00] \<and>
           (\<exists>c i. x = index_key c i \<and> valid_attr c \<and> valid_attr i \<and> simple_key i \<and>
                  (\<exists>v' a. ?m i = Some v' \<and> json_Unmarshal L v' = Inr a \<and> Color a = c))"
  proof cases
    case idx
    with x have "v = [CHR 0x00]" by simp
    moreover have "?m k = Some b" using ne by simp
    ultimately show ?thesis
      using idx index_key_not_simple [of c k] k col sk b by blast
  next
    case rec
    with x ne have "v = b" by simp
    then show ?thesis using rec sk b k col by simp
  next
    case old
    with x have mx: "m x = Some v" by simp
    show ?thesis
    proof (cases "simple_key x")
      case True
      with wf mx obtain a' where a': "json_Unmarshal L v = Inr a'" "ID a' = x" "valid_attr x"
          "valid_attr (Color a')" "m (index_key (Color a') x) = Some [CHR 0x00]"
        unfolding ledger_wf_def by blast
      have "index_key (Color a') x \<noteq> k"
        using sk index_key_not_simple [of "Color a'" x] by auto
      then have "?m (index_key (Color a') x) = Some [CHR 0x00]"
        using a'(5) by simp
      with True a' show ?thesis by blast
    next
      case False
      from ledger_wf_index [OF wf mx False] obtain c' i v' a' where
        i: "v = [CHR 0x00]" "x = index_key c' i" "valid_attr c'" "valid_attr i" "simple_key i"
           "m i = Some v'" "json_Unmarshal L v' = Inr a'" "Color a' = c'"
        by blast
      have "i \<noteq> k" using i(6) n by auto
      moreover have "i \<noteq> index_key c k" using i(5) index_key_not_simple [of c k] by auto
      ultimately have "?m i = Some v'" using i(6) by simp
      with False i show ?thesis by blast
    qed
  qed
qed

lemma ledger_wf_rewrite:
  assumes wf: "ledger_wf L m" and c: "json_contract L"
    and r: "m k = Some v" "json_Unmarshal L v = Inr a"
    and b: "json_Unmarshal L b = Inr a'" "ID a' = ID a" "Color a' = Color a"
  shows "ledger_wf L (m(k \<mapsto> b))"
  unfolding ledger_wf_def
proof (intro allI impI)
  let ?m = "m(k \<mapsto> b)"
  from ledger_wf_asset [OF c wf r] have
    a: "simple_key k" "ID a = k" "valid_attr k" "valid_attr (Color a)"
       "m (index_key (Color a) k) = Some [CHR 0x00]"
    by auto
  have idx: "\<And>c' i. index_key c' i \<noteq> k"
    using a(1) index_key_not_simple by metis
  fix x v0 assume x: "?m x = Some v0"
  show "simple_key x \<and>
           (\<exists>a. json_Unmarshal L v0 = Inr a \<and> ID a = x \<and> valid_attr x \<and> valid_attr (Color a)
                \<and> ?m (index_key (Color a) x) = Some [CHR 0x00])
        \<or> \<not> simple_key x \<and> v0 = [CHR 0x00] \<and>
           (\<exists>c i. x = index_key c i \<and> valid_attr c \<and> valid_attr i \<and> simple_key i \<and>
                  (\<exists>v' a. ?m i = Some v' \<and> json_Unmarshal L v' = Inr a \<and> Color a = c))"
  proof (cases "x = k")
    case True
    with x have "v0 = b" by simp
    then show ?thesis using True a b idx by simp
  next
    case xk: False
    with x have mx: "m x = Some v0" by simp
    show ?thesis
    proof (cases "simple_key x")
      case True
      with wf mx obtain a0 where a0: "json_Unmarshal L v0 = Inr a0" "ID a0 = x" "valid_attr x"
          "valid_attr (Color a0)" "m (index_key (Color a0) x) = Some [CHR 0x00]"
        unfolding ledger_wf_def by blast
      then have "?m (index_key (Color a0) x) = Some [CHR 0x00]"
        using idx by simp
      with True a0 show ?thesis by blast
    next
      case False
      from ledger_wf_index [OF wf mx False] obtain c' i v' a0 where
        i: "v0 = [CHR 0x00]" "x = index_key c' i" "valid_attr c'" "valid_attr i" "simple_key i"
           "m i = Some v'" "json_Unmarshal L v' = Inr a0" "Color a0 = c'"
        by blast
      have "\<exists>v' a. ?m i = Some v' \<and> json_Unmarshal L v' = Inr a \<and> Color a = c'"
      proof (cases "i = k")
        case True
        with i r have "Color a = c'" by simp
        with True b show ?thesis by simp
      next
        case False
        with i show ?thesis by simp
      qed
      with False i show ?thesis by blast
    qed
  qed
qed

lemma ledger_wf_delete:
  assumes wf: "ledger_wf L m" and c: "json_contract L"
    and r: "m k = Some v" "json_Unmarshal L v = Inr a"
  shows "ledger_wf L (m(k := None, index_key (Color a) (ID a) := None))"
  unfolding ledger_wf_def
proof (intro allI impI)
  let ?m = "m(k := None, index_key (Color a) (ID a) := None)"
  from ledger_wf_asset [OF c wf r] have
    a: "simple_key k" "ID a = k" "valid_attr k" "valid_attr (Color a)"
       "m (index_key (Color a) k) = Some [CHR 0x00]"
    by auto
  fix x v0 assume x: "?m x = Some v0"
  then have xk: "x \<noteq> k" and xi: "x \<noteq> index_key (Color a) k" and mx: "m x = Some v0"
    using a(2) by (auto split: if_splits)
  show "simple_key x \<and>
           (\<exists>a. json_Unmarshal L v0 = Inr a \<and> ID a = x \<and> valid_attr x \<and> valid_attr (Color a)
                \<and> ?m (index_key (Color a) x) = Some [CHR 0x00])
        \<or> \<not> simple_key x \<and> v0 = [CHR 0x00] \<and>
           (\<exists>c i. x = index_key c i \<and> valid_attr c \<and> valid_attr i \<and> simple_key i \<and>
                  (\<exists>v' a. ?m i = Some v' \<and> json_Unmarshal L v' = Inr a \<and> Color a = c))"
  proof (cases "simple_key x")
    case True
    with wf mx obtain a0 where a0: "json_Unmarshal L v0 = Inr a0" "ID a0 = x" "valid_attr x"
        "valid_attr (Color a0)" "m (index_key (Color a0) x) = Some [CHR 0x00]"
      unfolding ledger_wf_def by blast
    have "index_key (Color a0) x \<noteq> index_key (Color a) k"
      using index_key_inject [OF a0(4) a(4), of x k] xk by auto
    moreover have "index_key (Color a0) x \<noteq> k"
      using a(1) index_key_not_simple [of "Color a0" x] by auto
    ultimately have "?m (index_key (Color a0) x) = Some [CHR 0x00]"
      using a0(5) a(2) by simp
    with True a0 show ?thesis by blast
  next
    case False
    from ledger_wf_index [OF wf mx False] obtain c' i v' a0 where
      i: "v0 = [CHR 0x00]" "x = index_key c' i" "valid_attr c'" "valid_attr i" "simple_key i"
         "m i = Some v'" "json_Unmarshal L v' = Inr a0" "Color a0 = c'"
      by blast
    have "i \<noteq> k"
    proof
      assume "i = k"
      with i r have "c' = Color a" by simp
      with \<open>i = k\<close> i(2) xi show False by simp
    qed
    moreover have "i \<noteq> index_key (Color a) (ID a)"
      using i(5) index_key_not_simple [of "Color a" "ID a"] by auto
    ultimately have "?m i = Some v'" using i(6) by simp
    with False i show ?thesis by blast
  qed
qed

lemma json_contract_Marshal:
  assumes "json_contract L" "valid_attr (ID a)" "valid_attr (Color a)" "json_Marshal L a = Inr b"
  shows "b \<noteq> [] \<and> (\<exists>a'. json_Unmarshal L b = Inr a' \<and> ID a' = ID a \<and> Color a' = Color a)"
  using assms unfolding json_contract_def by blast

lemma CreateAsset_wf:
  assumes c: "json_contract L" and wf: "ledger_wf L (map_of (world st))"
    and ok: "CreateAsset L st assetID color size' owner appraisedValue = (Inr u, st')"
  shows "ledger_wf L (map_of (world st'))"
proof -
  let ?a = "\<lparr>DocType = ''asset'', ID = assetID, Color = color, Size = size',
             Owner = owner, AppraisedValue = appraisedValue\<rparr>"
  from CreateAsset_Inr [OF ok] obtain b where
    n: "map_of (world st) assetID = None" and k: "assetID \<noteq> []" "valid_attr assetID"
    and col: "valid_attr color" and m: "json_Marshal L ?a = Inr b"
    and st': "st' = st\<lparr>world := AList.update (index_key color assetID) [CHR 0x00]
                   (if b = [] then AList.delete assetID (world st)
                    else AList.update assetID b (world st))\<rparr>"
    by blast
  from c m k col obtain a' where b: "b \<noteq> []" "json_Unmarshal L b = Inr a'"
      "ID a' = assetID" "Color a' = color"
    unfolding json_contract_def by force
  have "map_of (world st')
      = (map_of (world st))(assetID \<mapsto> b, index_key color assetID \<mapsto> [CHR 0x00])"
    using b(1) by (simp add: st' update_conv')
  then show ?thesis
    using ledger_wf_create [OF wf c n k col b(2,3,4)] by simp
qed

text \<open>One rewrite of a record with a new owner, as TransferAsset and the loop of
  TransferAssetByColor do it.\<close>

lemma rewrite_owner:
  assumes c: "json_contract L" and wf: "ledger_wf L (map_of (world st))"
    and r: "ReadAsset L st k = Inr a"
    and m: "json_Marshal L (a\<lparr>Owner := newOwner\<rparr>) = Inr b"
    and p: "PutState st k b = Inr st1"
  shows "ledger_wf L (map_of (world st1)) \<and> b \<noteq> []
     \<and> map_of (world st1) = (map_of (world st))(k \<mapsto> b) \<and> simple_key k"
proof -
  from r obtain v where v: "map_of (world st) k = Some v" "json_Unmarshal L v = Inr a"
    unfolding ReadAsset_Inr by blast
  from ledger_wf_asset [OF c wf v] have
    a: "simple_key k" "ID a = k" "valid_attr k" "valid_attr (Color a)"
    by simp_all
  have "valid_attr (ID (a\<lparr>Owner := newOwner\<rparr>))" "valid_attr (Color (a\<lparr>Owner := newOwner\<rparr>))"
    using a by simp_all
  from json_contract_Marshal [OF c this m] obtain a' where
    b: "b \<noteq> []" "json_Unmarshal L b = Inr a'" "ID a' = ID a" "Color a' = Color a"
    by auto
  from p have "st1 = st\<lparr>world := (if b = [] then AList.delete k (world st)
                                   else AList.update k b (world st))\<rparr>"
    unfolding PutState_Inr by blast
  with b(1) have w: "map_of (world st1) = (map_of (world st))(k \<mapsto> b)"
    by (simp add: update_conv')
  have "ledger_wf L (map_of (world st1))"
    unfolding w by (rule ledger_wf_rewrite [OF wf c v b(2,3,4)])
  with b(1) w a(1) show ?thesis by blast
qed

lemma TransferAsset_wf:
  assumes "json_contract L" "ledger_wf L (map_of (world st))"
    and "TransferAsset L st assetID newOwner = (Inr u, st')"
  shows "ledger_wf L (map_of (world st'))"
proof -
  from assms(3) obtain a b where "ReadAsset L st assetID = Inr a"
      "json_Marshal L (a\<lparr>Owner := newOwner\<rparr>) = Inr b" "PutState st assetID b = Inr st'"
    unfolding TransferAsset_Inr by blast
  from rewrite_owner [OF assms(1,2) this] show ?thesis by (rule conjunct1)
qed

lemma DeleteAsset_wf:
  assumes c: "json_contract L" and wf: "ledger_wf L (map_of (world st))"
    and ok: "DeleteAsset L st assetID = (Inr u, st')"
  shows "ledger_wf L (map_of (world st'))"
proof -
  from ok obtain a st1 ck where r: "ReadAsset L st assetID = Inr a"
    and d1: "DelState st assetID = Inr st1"
    and k: "CreateCompositeKey index [Color a, ID a] = Inr ck"
    and d2: "DelState st1 ck = Inr st'"
    by (auto simp: DeleteAsset_def split: sum.splits)
  from r obtain v where v: "map_of (world st) assetID = Some v" "json_Unmarshal L v = Inr a"
    by (auto simp: ReadAsset_Inr)
  from k have ck: "ck = index_key (Color a) (ID a)"
    by (simp add: CreateCompositeKey_index)
  from d1 d2 have "map_of (world st')
      = (map_of (world st))(assetID := None, ck := None)"
    by (auto simp: DelState_Inr delete_conv')
  then show ?thesis
    using ledger_wf_delete [OF wf c v] ck by simp
qed

lemma transferLoop_wf:
  assumes "json_contract L" "ledger_wf L (map_of (world st))"
    and "transferLoop L st newOwner its = (Inr u, st')"
  shows "ledger_wf L (map_of (world st'))"
  using assms(2,3)
proof (induction its arbitrary: st)
  case Nil
  then show ?case by simp
next
  case (Cons it its)
  from transferLoop_Cons_Inr [OF Cons.prems(2)] obtain kv ot parts where
    s: "if length parts > 1
         then \<exists>a b st1. ReadAsset L st (parts ! 1) = Inr a
                \<and> json_Marshal L (a\<lparr>Owner := newOwner\<rparr>) = Inr b
                \<and> PutState st (parts ! 1) b = Inr st1
                \<and> transferLoop L st1 newOwner its = (Inr u, st')
         else transferLoop L st newOwner its = (Inr u, st')"
    by blast
  show ?case
  proof (cases "length parts > 1")
    case True
    with s obtain a b st1 where
      r: "ReadAsset L st (parts ! 1) = Inr a"
      and m: "json_Marshal L (a\<lparr>Owner := newOwner\<rparr>) = Inr b"
      and p: "PutState st (parts ! 1) b = Inr st1"
      and l: "transferLoop L st1 newOwner its = (Inr u, st')"
      by auto
    from rewrite_owner [OF assms(1) Cons.prems(1) r m p]
    have "ledger_wf L (map_of (world st1))" by (rule conjunct1)
    from Cons.IH [OF this l] show ?thesis .
  next
    case False
    with s have "transferLoop L st newOwner its = (Inr u, st')" by simp
    from Cons.IH [OF Cons.prems(1) this] show ?thesis .
  qed
qed

lemma TransferAssetByColor_wf:
  assumes "json_contract L" "ledger_wf L (map_of (world st))"
    and "TransferAssetByColor L st color newOwner = (Inr u, st')"
  shows "ledger_wf L (map_of (world st'))"
proof -
  from assms(3) obtain its where "transferLoop L st newOwner its = (Inr u, st')"
    unfolding TransferAssetByColor_Inr by blast
  from transferLoop_wf [OF assms(1,2) this] show ?thesis .
qed

lemma createLoop_wf:
  assumes "json_contract L" "ledger_wf L (map_of (world st))"
    and "createLoop L st assets = (Inr u, st')"
  shows "ledger_wf L (map_of (world st'))"
  using assms(2,3)
proof (induction assets arbitrary: st)
  case Nil
  then show ?case by simp
next
  case (Cons a assets)
  from Cons.prems(2) obtain st1 where
    c: "CreateAsset L st (ID a) (Color a) (Size a) (Owner a) (AppraisedValue a) = (Inr (), st1)"
    and l: "createLoop L st1 assets = (Inr u, st')"
    by (auto split: prod.splits sum.splits)
  from Cons.IH [OF CreateAsset_wf [OF assms(1) Cons.prems(1) c] l] show ?case .
qed

text \<open>Every ledger the contract can produce has the shape \<open>ledger_wf\<close>.\<close>

lemma reachable_wf:
  assumes "json_contract L" "reachable L st"
  shows "ledger_wf L (map_of (world st))"
  using assms(2)
proof (induction rule: reachable.induct)
  case (empty st)
  then show ?case by (simp add: ledger_wf_empty)
next
  case (host st st')
  then show ?case by simp
next
  case (create st assetID color size' owner appraisedValue u st')
  then show ?case using CreateAsset_wf [OF assms(1)] by blast
next
  case (delete st assetID u st')
  then show ?case using DeleteAsset_wf [OF assms(1)] by blast
next
  case (transfer st assetID newOwner u st')
  then show ?case using TransferAsset_wf [OF assms(1)] by blast
next
  case (transfer_by_color st color newOwner u st')
  then show ?case using TransferAssetByColor_wf [OF assms(1)] by blast
next
  case (init_ledger st u st')
  then show ?case using createLoop_wf [OF assms(1)] by (auto simp: InitLedger_def)
qed

lemma asset_at_Some:
  "asset_at L w k = Some a \<longleftrightarrow>
     simple_key k \<and> (\<exists>v. map_of w k = Some v \<and> json_Unmarshal L v = Inr a)"
  by (auto simp: asset_at_def split: option.splits sum.splits)

lemma index_entries_keys:
  "index_entries w c = {k \<in> dom (map_of w).
      in_range (color_prefix c) (color_prefix c @ maxUnicodeRuneValue) k}"
  by (simp add: index_entries_def range_entries_keys dom_map_of_conv_image_fst)

text \<open>The shape of the ledger gives the correspondence between index and Assets.\<close>

lemma ledger_wf_index_consistent:
  assumes c: "json_contract L" and wf: "ledger_wf L (map_of w)"
  shows "index_consistent L w"
  unfolding index_consistent_def
proof (intro conjI allI impI)
  fix k a assume "asset_at L w k = Some a"
  then obtain v where "map_of w k = Some v" "json_Unmarshal L v = Inr a"
    by (auto simp: asset_at_Some)
  from ledger_wf_asset [OF c wf this] show "valid_attr (Color a)" by simp
next
  fix col assume col: "valid_attr col"
  have inj: "inj_on (index_key col) (assets_of_color L w col)"
    by (simp add: inj_on_def index_key_def)
  have img: "index_key col ` assets_of_color L w col = index_entries w col"
  proof (intro equalityI subsetI)
    fix x assume "x \<in> index_key col ` assets_of_color L w col"
    then obtain k a where x: "x = index_key col k" and a: "asset_at L w k = Some a"
      and ca: "Color a = col"
      by (auto simp: assets_of_color_def)
    from a obtain v where v: "map_of w k = Some v" "json_Unmarshal L v = Inr a"
      by (auto simp: asset_at_Some)
    from ledger_wf_asset [OF c wf v] ca have
      "valid_attr k" "map_of w (index_key col k) = Some [CHR 0x00]"
      by auto
    then show "x \<in> index_entries w col"
      using x index_key_in_range [of k col] by (auto simp: index_entries_keys)
  next
    fix x assume "x \<in> index_entries w col"
    then obtain v where v: "map_of w x = Some v"
      and r: "in_range (color_prefix col) (color_prefix col @ maxUnicodeRuneValue) x"
      by (auto simp: index_entries_keys)
    from in_range_prefix [OF r] have p: "prefix (color_prefix col) x" .
    then have "\<not> simple_key x" by (rule color_prefix_not_simple)
    from ledger_wf_index [OF wf v this] obtain c' i v' a where
      i: "x = index_key c' i" "valid_attr c'" "simple_key i" "map_of w i = Some v'"
         "json_Unmarshal L v' = Inr a" "Color a = c'"
      by blast
    from index_key_prefix_color [OF col i(2)] p i(1) have "col = c'" by simp
    with i have "i \<in> assets_of_color L w col"
      by (auto simp: assets_of_color_def asset_at_Some)
    with i(1) \<open>col = c'\<close> show "x \<in> index_key col ` assets_of_color L w col" by blast
  qed
  from inj img show "bij_betw (index_key col) (assets_of_color L w col) (index_entries w col)"
    by (simp add: bij_betw_def)
qed

lemma assets_of_color_simple: "k \<in> assets_of_color L w c \<Longrightarrow> simple_key k"
  by (auto simp: assets_of_color_def asset_at_Some)

text \<open>The loop over the index entries of distinct Assets of one color rewrites exactly
  those Assets, each once, from the record the ledger held at the start.\<close>

lemma transferLoop_ids:
  assumes c: "json_contract L" and col: "valid_attr color"
  shows "ledger_wf L (map_of (world st)) \<Longrightarrow>
     \<forall>kv \<in> set kvs. \<exists>i. fst kv = index_key color i \<and> valid_attr i \<Longrightarrow>
     distinct (map fst kvs) \<Longrightarrow>
     transferLoop L st newOwner (map Inr kvs) = (Inr u, st') \<Longrightarrow>
     (index_key color k \<in> fst ` set kvs \<longrightarrow>
        (\<exists>a b. ReadAsset L st k = Inr a \<and> json_Marshal L (a\<lparr>Owner := newOwner\<rparr>) = Inr b
              \<and> b \<noteq> [] \<and> map_of (world st') k = Some b))
     \<and> (index_key color k \<notin> fst ` set kvs \<longrightarrow> map_of (world st') k = map_of (world st) k)"
proof (induction kvs arbitrary: st)
  case Nil
  then show ?case by simp
next
  case (Cons kv kvs)
  from Cons.prems(2) obtain i where i: "fst kv = index_key color i" "valid_attr i"
    by auto
  have sp: "SplitCompositeKey (fst kv) = Inr (index, [color, i])"
    using SplitCompositeKey_index_key [OF col i(2)] i(1) by simp
  from Cons.prems(4) have "transferLoop L st newOwner (Inr kv # map Inr kvs) = (Inr u, st')"
    by simp
  from transferLoop_Cons_Inr [OF this] sp obtain a b st1 where
    r: "ReadAsset L st i = Inr a"
    and m: "json_Marshal L (a\<lparr>Owner := newOwner\<rparr>) = Inr b"
    and p: "PutState st i b = Inr st1"
    and l: "transferLoop L st1 newOwner (map Inr kvs) = (Inr u, st')"
    by auto
  from rewrite_owner [OF c Cons.prems(1) r m p] have
    wf1: "ledger_wf L (map_of (world st1))" and b: "b \<noteq> []"
    and w1: "map_of (world st1) = (map_of (world st))(i \<mapsto> b)"
    by blast+
  have tl_keys: "\<forall>kv \<in> set kvs. \<exists>i. fst kv = index_key color i \<and> valid_attr i"
    using Cons.prems(2) by simp
  have tl_dist: "distinct (map fst kvs)" using Cons.prems(3) by simp
  note IH = Cons.IH [OF wf1 tl_keys tl_dist l]
  have head_not_tl: "index_key color i \<notin> fst ` set kvs"
    using Cons.prems(3) i(1) by auto
  have same: "index_key color k = index_key color i \<longleftrightarrow> k = i"
    by (simp add: index_key_def)
  show ?case
  proof (cases "k = i")
    case True
    with IH head_not_tl have "map_of (world st') k = map_of (world st1) k" by simp
    with True w1 have "map_of (world st') k = Some b" by simp
    with True r m b i(1) show ?thesis by auto
  next
    case False
    have mk: "map_of (world st1) k = map_of (world st) k"
      using False w1 by simp
    have rk: "ReadAsset L st1 k = ReadAsset L st k"
      using mk PutState_faults [OF p]
      by (cases "get_fault st k") (simp_all add: ReadAsset_def GetState_def)
    have mem: "index_key color k \<in> fst ` set (kv # kvs) \<longleftrightarrow> index_key color k \<in> fst ` set kvs"
      using False i(1) same by auto
    from IH rk mk show ?thesis unfolding mem by simp
  qed
qed

section \<open>Facts about the reference library\<close>

lemmas ref_defs = ref_lib_def ref_Marshal_def ref_Unmarshal_def parse_asset_def expect_def
  scan_string_def json_quote_def scan_int_def show_int_def is_digit_def digit_val_def
  digit_char_def plain_text_def unescape_def in_int64_def

declare show_nat.simps [simp del]

lemma digit_table:
  "list_all (\<lambda>n. is_digit (digit_char n) \<and> digit_val (digit_char n) = n) [0..<10]"
  by code_simp

lemma digit_ok: "n < 10 \<Longrightarrow> is_digit (digit_char n) \<and> digit_val (digit_char n) = n"
  using digit_table by (simp add: list_all_iff)

lemma scan_string_body_quote:
  "plain_text s \<Longrightarrow> scan_string_body (quote_body s @ CHR 0x22 # rest) = Some (s, rest)"
  by (induction s) (auto simp: plain_text_def unescape_def)

lemma scan_string_quote:
  "plain_text s \<Longrightarrow> scan_string (json_quote s @ rest) = Some (s, rest)"
  by (simp add: scan_string_def json_quote_def scan_string_body_quote)

lemma scan_digits_run:
  "list_all is_digit ds \<Longrightarrow> (rest = [] \<or> \<not> is_digit (hd rest)) \<Longrightarrow>
     scan_digits acc (ds @ rest) = (digits_value acc ds, rest)"
proof (induction ds arbitrary: acc)
  case Nil
  then show ?case by (cases rest) (auto simp: digits_value_def)
next
  case (Cons d ds)
  then show ?case by (simp add: digits_value_def)
qed

lemma show_nat_digits: "list_all is_digit (show_nat n) \<and> show_nat n \<noteq> []"
proof (induction n rule: show_nat.induct)
  case (1 n)
  show ?case
  proof (cases "n < 10")
    case True
    then show ?thesis using digit_ok [of n] by (simp add: show_nat.simps [of n])
  next
    case False
    then show ?thesis using 1 digit_ok [of "n mod 10"]
      by (simp add: show_nat.simps [of n])
  qed
qed

lemma show_nat_value: "digits_value acc (show_nat n) = acc * 10 ^ length (show_nat n) + n"
proof (induction n arbitrary: acc rule: show_nat.induct)
  case (1 n)
  show ?case
  proof (cases "n < 10")
    case True
    then show ?thesis using digit_ok [of n]
      by (simp add: show_nat.simps [of n] digits_value_def)
  next
    case False
    have "digits_value acc (show_nat n)
        = digits_value acc (show_nat (n div 10)) * 10 + n mod 10"
      using False digit_ok [of "n mod 10"]
      by (simp add: show_nat.simps [of n] digits_value_def)
    also have "\<dots> = (acc * 10 ^ length (show_nat (n div 10)) + n div 10) * 10 + n mod 10"
      using 1 [OF False] by simp
    also have "\<dots> = acc * 10 ^ length (show_nat n) + n"
      using False by (simp add: show_nat.simps [of n] algebra_simps)
    finally show ?thesis .
  qed
qed

lemma scan_digits_show_nat:
  "rest = [] \<or> \<not> is_digit (hd rest) \<Longrightarrow> scan_digits 0 (show_nat n @ rest) = (n, rest)"
  using scan_digits_run [of "show_nat n" rest 0] show_nat_digits [of n] show_nat_value [of 0 n]
  by simp

lemma hd_show_nat: "is_digit (hd (show_nat n @ rest))"
  using show_nat_digits [of n] by (cases "show_nat n") auto

lemma minus_not_digit: "\<not> is_digit CHR ''-''"
  by (simp add: is_digit_def)

lemma scan_int_show_int:
  assumes "rest = [] \<or> \<not> is_digit (hd rest)"
  shows "scan_int (show_int i @ rest) = Some (i, rest)"
proof (cases "i < 0")
  case True
  obtain d r where dr: "show_nat (nat (- i)) @ rest = d # r"
    using show_nat_digits [of "nat (- i)"] by (cases "show_nat (nat (- i))") auto
  then have "is_digit d" using hd_show_nat [of "nat (- i)" rest] by simp
  then show ?thesis using True dr scan_digits_show_nat [OF assms, of "nat (- i)"]
    by (simp add: scan_int_def show_int_def)
next
  case False
  obtain d r where dr: "show_nat (nat i) @ rest = d # r"
    using show_nat_digits [of "nat i"] by (cases "show_nat (nat i)") auto
  then have d: "is_digit d" using hd_show_nat [of "nat i" rest] by simp
  then have "d \<noteq> CHR ''-''" using minus_not_digit by auto
  then show ?thesis using False dr d scan_digits_show_nat [OF assms, of "nat i"]
    by (simp add: scan_int_def show_int_def)
qed

lemma in_int64_sint: "in_int64 (sint (w :: 64 word))"
  using sint_ge [of w] sint_lt [of w] by (simp add: in_int64_def)

lemma separators_not_digits: "\<not> is_digit CHR '',''" "\<not> is_digit CHR ''}''"
  by (simp_all add: is_digit_def)

text \<open>The reference reader gives back every Asset the reference writer accepts.\<close>

lemma ref_roundtrip:
  assumes "ref_Marshal a = Inr b"
  shows "ref_Unmarshal b = Inr a \<and> b \<noteq> []"
proof -
  from assms have p: "plain_text (DocType a)" "plain_text (ID a)" "plain_text (Color a)"
      "plain_text (Owner a)"
    by (auto simp: ref_Marshal_def split: if_splits)
  from assms p have b: \<open>b = ''{"docType":'' @ json_quote (DocType a)
                @ '',"ID":'' @ json_quote (ID a)
                @ '',"color":'' @ json_quote (Color a)
                @ '',"size":'' @ show_int (sint (Size a))
                @ '',"owner":'' @ json_quote (Owner a)
                @ '',"appraisedValue":'' @ show_int (sint (AppraisedValue a))
                @ ''}''\<close>
    by (simp add: ref_Marshal_def)
  have "parse_asset b = Some a"
    unfolding b parse_asset_def
    by (simp add: expect_def scan_string_quote p scan_int_show_int separators_not_digits
        in_int64_sint)
  then show ?thesis by (simp add: ref_Unmarshal_def b)
qed

lemma roundtrips_ref_lib: "roundtrips ref_lib a"
  using ref_roundtrip [of a] by (simp add: roundtrips_def ref_lib_def)

lemma json_contract_ref_lib: "json_contract ref_lib"
proof -
  have "\<exists>e. ref_Unmarshal [CHR 0x00] = Inl e"
    by (simp add: ref_Unmarshal_def parse_asset_def expect_def)
  then show ?thesis
    using ref_roundtrip by (auto simp: json_contract_def ref_lib_def)
qed

lemma scan_string_body_plain:
  "plain_text s \<Longrightarrow> CHR 0x22 \<notin> set s \<Longrightarrow> CHR 0x5C \<notin> set s \<Longrightarrow>
     scan_string_body (s @ CHR 0x22 # rest) = Some (s, rest)"
  by (induction s) (auto simp: plain_text_def)

lemma selector_owner_plain:
  assumes "plain_text owner" "CHR 0x22 \<notin> set owner" "CHR 0x5C \<notin> set owner"
  shows "selector_owner (ownerQueryString owner) = Some owner"
  using scan_string_body_plain [OF assms]
  by (simp add: selector_owner_def ownerQueryString_def expect_def scan_string_def)

section \<open>The closed examples, evaluated\<close>

lemma ref_Marshal_asset1: "json_Marshal ref_lib asset1 = Inr asset1_bytes"
  by (simp add: ref_defs show_nat.simps asset1_def asset1_bytes_def)

lemma create_asset1:
  "CreateAsset ref_lib (quiet_stub []) ''asset1'' ''blue'' 5 ''Tomoko'' 300 = (Inr (), ledger1)"
proof -
  have m: "json_Marshal ref_lib \<lparr>DocType = ''asset'', ID = ''asset1'', Color = ''blue'',
             Size = 5, Owner = ''Tomoko'', AppraisedValue = 300\<rparr> = Inr asset1_bytes"
    using ref_Marshal_asset1 by (simp add: asset1_def)
  have b: "asset1_bytes \<noteq> []" by (simp add: asset1_bytes_def)
  show ?thesis
    by (simp add: CreateAsset_def m b shim_defs ledger1_def)
qed

lemma ref_Unmarshal_asset1: "json_Unmarshal ref_lib asset1_bytes = Inr asset1"
  using ref_roundtrip [of asset1 asset1_bytes] ref_Marshal_asset1 by (simp add: ref_lib_def)

lemma ReadAsset_ledger1: "ReadAsset ref_lib ledger1 ''asset1'' = Inr asset1"
  using ref_Unmarshal_asset1 by (simp add: ReadAsset_Inr ledger1_def quiet_stub_def)

lemma ref_Marshal_asset1_alice:
  "json_Marshal ref_lib (asset1\<lparr>Owner := ''Alice''\<rparr>) = Inr asset1_alice_bytes"
  by (simp add: ref_defs show_nat.simps asset1_def asset1_alice_bytes_def)

lemma ref_Unmarshal_asset1_alice:
  "json_Unmarshal ref_lib asset1_alice_bytes = Inr (asset1\<lparr>Owner := ''Alice''\<rparr>)"
  using ref_roundtrip [of "asset1\<lparr>Owner := ''Alice''\<rparr>" asset1_alice_bytes]
    ref_Marshal_asset1_alice by (simp add: ref_lib_def)

lemma ref_Marshal_asset2:
  "json_Marshal ref_lib \<lparr>DocType = ''asset'', ID = ''asset2'', Color = ''red'', Size = 5,
      Owner = ''Brad'', AppraisedValue = 400\<rparr> = Inr asset2_bytes"
  by (simp add: ref_defs show_nat.simps asset2_bytes_def)

lemma create_two:
  "createLoop ref_lib ledger_with_asset3
     [\<lparr>DocType = ''asset'', ID = ''asset1'', Color = ''blue'', Size = 5, Owner = ''Tomoko'',
       AppraisedValue = 300\<rparr>,
      \<lparr>DocType = ''asset'', ID = ''asset2'', Color = ''red'', Size = 5, Owner = ''Brad'',
       AppraisedValue = 400\<rparr>] = (Inr (), ledger_stopped_at_asset3)"
proof -
  have m1: "json_Marshal ref_lib \<lparr>DocType = ''asset'', ID = ''asset1'', Color = ''blue'',
             Size = 5, Owner = ''Tomoko'', AppraisedValue = 300\<rparr> = Inr asset1_bytes"
    using ref_Marshal_asset1 by (simp add: asset1_def)
  have b: "asset1_bytes \<noteq> []" "asset2_bytes \<noteq> []"
    by (simp_all add: asset1_bytes_def asset2_bytes_def)
  show ?thesis
    by (simp add: CreateAsset_def m1 ref_Marshal_asset2 b shim_defs ledger_with_asset3_def
        ledger_stopped_at_asset3_def)
qed

lemma history1_eval:
  "GetAssetHistory ref_lib history_stub ''asset1'' = Inr (Some history1_results)"
proof -
  have u: "ref_Unmarshal asset1_bytes = Inr asset1"
      "ref_Unmarshal asset1_alice_bytes = Inr (asset1\<lparr>Owner := ''Alice''\<rparr>)"
    using ref_Unmarshal_asset1 ref_Unmarshal_asset1_alice by (simp_all add: ref_lib_def)
  have b: "asset1_bytes \<noteq> []" "asset1_alice_bytes \<noteq> []"
    by (simp_all add: asset1_bytes_def asset1_alice_bytes_def)
  show ?thesis
    by (simp add: GetAssetHistory_def GetHistoryForKey_def history_stub_def quiet_stub_def
        history1_def history1_results_def ref_lib_def u b ref_Timestamp_def append_slice_def)
qed

lemma history_broken_eval:
  "GetAssetHistory ref_lib history_stub ''broken''
     = Inl ''json: cannot unmarshal into Go value of type Asset''"
  by (simp add: GetAssetHistory_def GetHistoryForKey_def history_stub_def quiet_stub_def
      ref_lib_def ref_Unmarshal_def parse_asset_def expect_def)

lemma reachable_ledger1: "reachable ref_lib ledger1"
  by (rule reachable.create [OF reachable.empty create_asset1]) (simp add: quiet_stub_def)

lemma scan_blue_ledger1:
  "GetStateByPartialCompositeKey ledger1 index [''blue'']
     = Inr [Inr (index_key ''blue'' ''asset1'', [CHR 0x00])]"
  by (simp add: GetStateByPartialCompositeKey_def handleGetStateByRange_def range_entries_def
      in_range_def shim_defs ledger1_def)

lemma split_blue_asset1:
  "SplitCompositeKey (index_key ''blue'' ''asset1'') = Inr (''color~name'', [''blue'', ''asset1''])"
  by (simp add: SplitCompositeKey_def shim_defs)

lemma transfer_blue_ledger1:
  "TransferAssetByColor ref_lib ledger1 ''blue'' ''Alice'' = (Inr (), ledger1_alice)"
proof -
  have p: "PutState ledger1 ''asset1'' asset1_alice_bytes = Inr ledger1_alice"
    by (simp add: PutState_def ledger1_def ledger1_alice_def quiet_stub_def
        asset1_alice_bytes_def)
  show ?thesis
    by (simp add: TransferAssetByColor_def scan_blue_ledger1 split_blue_asset1
        ReadAsset_ledger1 ref_Marshal_asset1_alice p)
qed

lemma asset_at_ledger1: "asset_at ref_lib (world ledger1) ''asset1'' = Some asset1"
  using ref_Unmarshal_asset1
  by (simp add: asset_at_Some simple_key_def ledger1_def quiet_stub_def)

lemma scan_blue_readonly:
  "GetStateByPartialCompositeKey ledger1_readonly index [''blue'']
     = Inr ([] @ Inr (index_key ''blue'' ''asset1'', [CHR 0x00]) # [])"
  by (simp add: GetStateByPartialCompositeKey_def handleGetStateByRange_def range_entries_def
      in_range_def shim_defs ledger1_def ledger1_readonly_def)

lemma ReadAsset_readonly: "ReadAsset ref_lib ledger1_readonly ''asset1'' = Inr asset1"
  using ref_Unmarshal_asset1
  by (simp add: ReadAsset_Inr ledger1_def ledger1_readonly_def quiet_stub_def)

section \<open>The claims\<close>



text \<open>
  C2. On every ledger the contract can produce -- from the empty ledger, by CreateAsset,
  DeleteAsset, TransferAsset, TransferAssetByColor and InitLedger invocations that complete
  without error (ReadAsset writes nothing) -- the secondary index and the Assets
  correspond: every existing Asset has a color the index can hold, and for every such
  color the entries that the index scan of the color enumerates are, one to one, the keys
  \<open>index_key color id\<close> of the existing Assets of that color. Each of the five writing
  operations, when it completes without error on such a ledger, leaves a ledger on which
  the correspondence holds again. The JSON library is assumed to keep the ID and the
  color of an Asset through its encoding and not to decode the index marker.
\<close>

theorem index_invariant:
  assumes "json_contract L" "reachable L st"
  shows "index_consistent L (world st)
     \<and> (CreateAsset L st assetID color size' owner appraisedValue = (Inr u, st1) \<longrightarrow>
          index_consistent L (world st1))
     \<and> (DeleteAsset L st assetID = (Inr u, st2) \<longrightarrow> index_consistent L (world st2))
     \<and> (TransferAsset L st assetID newOwner = (Inr u, st3) \<longrightarrow>
          index_consistent L (world st3))
     \<and> (TransferAssetByColor L st color newOwner = (Inr u, st4) \<longrightarrow>
          index_consistent L (world st4))
     \<and> (InitLedger L st = (Inr u, st5) \<longrightarrow> index_consistent L (world st5))"
proof -
  have inv: "\<And>s. reachable L s \<Longrightarrow> index_consistent L (world s)"
    by (rule ledger_wf_index_consistent [OF assms(1) reachable_wf [OF assms(1)]])
  show ?thesis
  proof (intro conjI impI)
    show "index_consistent L (world st)" by (rule inv [OF assms(2)])
  next
    assume "CreateAsset L st assetID color size' owner appraisedValue = (Inr u, st1)"
    then show "index_consistent L (world st1)"
      by (rule inv [OF reachable.create [OF assms(2)]])
  next
    assume "DeleteAsset L st assetID = (Inr u, st2)"
    then show "index_consistent L (world st2)"
      by (rule inv [OF reachable.delete [OF assms(2)]])
  next
    assume "TransferAsset L st assetID newOwner = (Inr u, st3)"
    then show "index_consistent L (world st3)"
      by (rule inv [OF reachable.transfer [OF assms(2)]])
  next
    assume "TransferAssetByColor L st color newOwner = (Inr u, st4)"
    then show "index_consistent L (world st4)"
      by (rule inv [OF reachable.transfer_by_color [OF assms(2)]])
  next
    assume "InitLedger L st = (Inr u, st5)"
    then show "index_consistent L (world st5)"
      by (rule inv [OF reachable.init_ledger [OF assms(2)]])
  qed
qed

theorem index_invariant_witness:
  "json_contract ref_lib \<and> reachable ref_lib ledger1
   \<and> index_consistent ref_lib (world ledger1)
   \<and> TransferAssetByColor ref_lib ledger1 ''blue'' ''Alice'' = (Inr (), ledger1_alice)
   \<and> index_consistent ref_lib (world ledger1_alice)"
proof -
  note t = index_invariant [OF json_contract_ref_lib reachable_ledger1,
      where color = "''blue''" and newOwner = "''Alice''" and u = "()" and ?st4.0 = ledger1_alice]
  from t have 1: "index_consistent ref_lib (world ledger1)" by (rule conjunct1)
  from t transfer_blue_ledger1 have 2: "index_consistent ref_lib (world ledger1_alice)"
    by blast
  from json_contract_ref_lib reachable_ledger1 1 transfer_blue_ledger1 2
  show ?thesis by (intro conjI)
qed

text \<open>
  C3. If a record exists under id (the existence probe returns a value), CreateAsset
  fails with the error "asset already exists: id" and returns the stub as it received
  it: nothing is written and the stored record is untouched. In particular a second
  CreateAsset with the same id right after a successful one fails so, whatever its other
  arguments.
\<close>

theorem CreateAsset_conflict:
  "(GetState st assetID = Inr (Some v) \<longrightarrow>
      CreateAsset L st assetID color size' owner appraisedValue
        = (Inl (''asset already exists: '' @ assetID), st))
   \<and> (CreateAsset L st assetID color size' owner appraisedValue = (Inr u, st')
        \<and> json_Marshal L \<lparr>DocType = ''asset'', ID = assetID, Color = color, Size = size',
                            Owner = owner, AppraisedValue = appraisedValue\<rparr> \<noteq> Inr [] \<longrightarrow>
      CreateAsset L st' assetID color2 size2 owner2 appraisedValue2
        = (Inl (''asset already exists: '' @ assetID), st'))"
proof (intro conjI impI)
  assume "GetState st assetID = Inr (Some v)"
  then show "CreateAsset L st assetID color size' owner appraisedValue
        = (Inl (''asset already exists: '' @ assetID), st)"
    by (simp add: CreateAsset_def AssetExists_def)
next
  let ?a = "\<lparr>DocType = ''asset'', ID = assetID, Color = color, Size = size',
             Owner = owner, AppraisedValue = appraisedValue\<rparr>"
  assume a: "CreateAsset L st assetID color size' owner appraisedValue = (Inr u, st')
        \<and> json_Marshal L ?a \<noteq> Inr []"
  then obtain b where m: "json_Marshal L ?a = Inr b" and b: "b \<noteq> []"
    using CreateAsset_Inr [of L st assetID color size' owner appraisedValue u st'] by auto
  from a have c: "CreateAsset L st assetID color size' owner appraisedValue = (Inr u, st')"
    by simp
  from CreateAsset_stored [OF c m b] have "GetState st' assetID = Inr (Some b)"
    by (simp add: GetState_def)
  then show "CreateAsset L st' assetID color2 size2 owner2 appraisedValue2
        = (Inl (''asset already exists: '' @ assetID), st')"
    by (simp add: CreateAsset_def AssetExists_def)
qed

theorem CreateAsset_conflict_witness:
  "GetState ledger1 ''asset1'' = Inr (Some asset1_bytes)
   \<and> CreateAsset ref_lib (quiet_stub []) ''asset1'' ''blue'' 5 ''Tomoko'' 300 = (Inr (), ledger1)
   \<and> json_Marshal ref_lib \<lparr>DocType = ''asset'', ID = ''asset1'', Color = ''blue'', Size = 5,
                             Owner = ''Tomoko'', AppraisedValue = 300\<rparr> \<noteq> Inr []
   \<and> CreateAsset ref_lib ledger1 ''asset1'' ''red'' 7 ''Brad'' 1
        = (Inl ''asset already exists: asset1'', ledger1)"
proof -
  have g: "GetState ledger1 ''asset1'' = Inr (Some asset1_bytes)"
    by (simp add: GetState_def ledger1_def quiet_stub_def)
  have m: "json_Marshal ref_lib \<lparr>DocType = ''asset'', ID = ''asset1'', Color = ''blue'',
             Size = 5, Owner = ''Tomoko'', AppraisedValue = 300\<rparr> \<noteq> Inr []"
    using ref_Marshal_asset1 by (simp add: asset1_def asset1_bytes_def)
  from CreateAsset_conflict [of ledger1 "''asset1''" asset1_bytes ref_lib "''red''" 7 "''Brad''" 1]
    g have "CreateAsset ref_lib ledger1 ''asset1'' ''red'' 7 ''Brad'' 1
        = (Inl ''asset already exists: asset1'', ledger1)"
    by simp
  with g m create_asset1 show ?thesis by simp
qed

text \<open>
  C4. TransferAsset(id, newOwner) on a readable record writes, under id, the encoding of
  the record read at the start with only its owner replaced by newOwner, and reading id
  afterwards returns that record; whatever its outcome, it leaves every key other than id
  (so every index entry) as it was; if no record exists under id it fails with
  "asset id does not exist" and writes nothing.
\<close>

theorem TransferAsset_frame:
  "(ReadAsset L st assetID = Inr asset
      \<and> json_Marshal L (asset\<lparr>Owner := newOwner\<rparr>) = Inr b \<and> b \<noteq> []
      \<and> assetID \<noteq> [] \<and> put_fault st assetID = None \<longrightarrow>
        TransferAsset L st assetID newOwner
          = (Inr (), st\<lparr>world := AList.update assetID b (world st)\<rparr>)
        \<and> map_of (AList.update assetID b (world st)) assetID = Some b
        \<and> (json_Unmarshal L b = Inr (asset\<lparr>Owner := newOwner\<rparr>) \<longrightarrow>
             ReadAsset L (st\<lparr>world := AList.update assetID b (world st)\<rparr>) assetID
               = Inr (asset\<lparr>Owner := newOwner\<rparr>)))
   \<and> (\<forall>k. k \<noteq> assetID \<longrightarrow>
         map_of (world (snd (TransferAsset L st assetID newOwner))) k = map_of (world st) k)
   \<and> (GetState st assetID = Inr None \<longrightarrow>
         TransferAsset L st assetID newOwner
           = (Inl (''asset '' @ assetID @ '' does not exist''), st))"
proof (intro conjI impI allI)
  assume h: "ReadAsset L st assetID = Inr asset
      \<and> json_Marshal L (asset\<lparr>Owner := newOwner\<rparr>) = Inr b \<and> b \<noteq> []
      \<and> assetID \<noteq> [] \<and> put_fault st assetID = None"
  then show "TransferAsset L st assetID newOwner
          = (Inr (), st\<lparr>world := AList.update assetID b (world st)\<rparr>)"
    by (simp add: TransferAsset_def PutState_def)
  show "map_of (AList.update assetID b (world st)) assetID = Some b"
    by (simp add: update_conv')
  assume "json_Unmarshal L b = Inr (asset\<lparr>Owner := newOwner\<rparr>)"
  with h show "ReadAsset L (st\<lparr>world := AList.update assetID b (world st)\<rparr>) assetID
               = Inr (asset\<lparr>Owner := newOwner\<rparr>)"
    by (simp add: ReadAsset_Inr update_conv')
next
  fix k :: string assume "k \<noteq> assetID"
  then show "map_of (world (snd (TransferAsset L st assetID newOwner))) k = map_of (world st) k"
    using TransferAsset_world [of L st assetID newOwner k] by simp
next
  assume "GetState st assetID = Inr None"
  then show "TransferAsset L st assetID newOwner
           = (Inl (''asset '' @ assetID @ '' does not exist''), st)"
    by (simp add: TransferAsset_def ReadAsset_def)
qed

theorem TransferAsset_frame_witness:
  "ReadAsset ref_lib ledger1 ''asset1'' = Inr asset1
   \<and> json_Marshal ref_lib (asset1\<lparr>Owner := ''Alice''\<rparr>) = Inr asset1_alice_bytes
   \<and> asset1_alice_bytes \<noteq> [] \<and> ''asset1'' \<noteq> [] \<and> put_fault ledger1 ''asset1'' = None
   \<and> json_Unmarshal ref_lib asset1_alice_bytes = Inr (asset1\<lparr>Owner := ''Alice''\<rparr>)
   \<and> TransferAsset ref_lib ledger1 ''asset1'' ''Alice'' = (Inr (), ledger1_alice)
   \<and> ReadAsset ref_lib ledger1_alice ''asset1'' = Inr (asset1\<lparr>Owner := ''Alice''\<rparr>)
   \<and> index_key ''blue'' ''asset1'' \<noteq> ''asset1''
   \<and> map_of (world ledger1_alice) (index_key ''blue'' ''asset1'')
        = map_of (world ledger1) (index_key ''blue'' ''asset1'')
   \<and> GetState (quiet_stub []) ''asset1'' = Inr None
   \<and> TransferAsset ref_lib (quiet_stub []) ''asset1'' ''Alice''
        = (Inl ''asset asset1 does not exist'', quiet_stub [])"
proof -
  have b: "asset1_alice_bytes \<noteq> []" by (simp add: asset1_alice_bytes_def)
  have p: "put_fault ledger1 ''asset1'' = None" by (simp add: ledger1_def quiet_stub_def)
  have l: "ledger1\<lparr>world := AList.update ''asset1'' asset1_alice_bytes (world ledger1)\<rparr>
            = ledger1_alice"
    by (simp add: ledger1_def ledger1_alice_def quiet_stub_def)
  have k: "index_key ''blue'' ''asset1'' \<noteq> ''asset1''"
    by (simp add: index_key_def color_prefix_def compositeKeyNamespace_def)
  have g: "GetState (quiet_stub []) ''asset1'' = Inr None"
    by (simp add: GetState_def quiet_stub_def)
  note t1 = TransferAsset_frame [of ref_lib ledger1 "''asset1''" asset1 "''Alice''"
      asset1_alice_bytes]
  note t2 = TransferAsset_frame [of ref_lib "quiet_stub []" "''asset1''" asset1 "''Alice''"
      asset1_alice_bytes]
  from t1 ReadAsset_ledger1 ref_Marshal_asset1_alice ref_Unmarshal_asset1_alice b p l k
  have "TransferAsset ref_lib ledger1 ''asset1'' ''Alice'' = (Inr (), ledger1_alice)
     \<and> ReadAsset ref_lib ledger1_alice ''asset1'' = Inr (asset1\<lparr>Owner := ''Alice''\<rparr>)
     \<and> map_of (world ledger1_alice) (index_key ''blue'' ''asset1'')
        = map_of (world ledger1) (index_key ''blue'' ''asset1'')"
    by (simp add: ledger1_def ledger1_alice_def quiet_stub_def)
  moreover from t2 g have "TransferAsset ref_lib (quiet_stub []) ''asset1'' ''Alice''
        = (Inl ''asset asset1 does not exist'', quiet_stub [])"
    by simp
  ultimately show ?thesis
    using ReadAsset_ledger1 ref_Marshal_asset1_alice ref_Unmarshal_asset1_alice b p k g
    by simp
qed

text \<open>
  C5, as stated: on a range that holds no key GetAssetsByRange would return an empty
  slice distinct from nil. It returns the nil slice: on the empty ledger the range from
  "a" to "z" holds no key, and the result is \<open>None\<close>, not \<open>Some []\<close>.
\<close>

theorem GetAssetsByRange_empty_counterexample:
  "range_entries (world (quiet_stub [])) ''a'' ''z'' = []
   \<and> GetAssetsByRange ref_lib (quiet_stub []) ''a'' ''z'' = Inr None
   \<and> GetAssetsByRange ref_lib (quiet_stub []) ''a'' ''z'' \<noteq> Inr (Some [])"
  by (simp add: GetAssetsByRange_def GetStateByRange_def validateSimpleKeys_def
      handleGetStateByRange_def range_entries_def constructQueryResponseFromIterator_def
      quiet_stub_def compositeKeyNamespace_def)

text \<open>
  C5, amended. For every startKey and endKey that the stub accepts as simple keys, when
  the host opens the iterator and no ledger key lies in the range (from startKey, or from
  the byte 0x01 when startKey is empty, up to endKey excluded, unbounded when endKey is
  empty), GetAssetsByRange succeeds and returns the nil slice, whose length is 0:
  \<open>var assets []*Asset\<close> is never appended to.
\<close>

theorem GetAssetsByRange_empty:
  assumes "\<forall>k \<in> fst ` set (world st).
             \<not> in_range (if startKey = [] then emptyKeySubstitute else startKey) endKey k"
    and "validateSimpleKeys [if startKey = [] then emptyKeySubstitute else startKey, endKey]
           = Inr ()"
    and "scan_fault st (if startKey = [] then emptyKeySubstitute else startKey) endKey = None"
  shows "GetAssetsByRange L st startKey endKey = Inr None \<and> len (None :: Asset slice) = 0"
proof -
  let ?s = "if startKey = [] then emptyKeySubstitute else startKey"
  from assms(1) have "range_entries (world st) ?s endKey = []"
    by (simp only: range_entries_empty)
  then have "GetStateByRange st startKey endKey = Inr []"
    using assms(2,3) by (simp add: GetStateByRange_def handleGetStateByRange_def Let_def)
  then show ?thesis
    by (simp add: GetAssetsByRange_def constructQueryResponseFromIterator_def len_def)
qed

theorem GetAssetsByRange_empty_witness:
  "list_all (\<lambda>k. \<not> in_range ''b'' ''c'' k) (map fst (world ledger1))
   \<and> validateSimpleKeys [''b'', ''c''] = Inr ()
   \<and> scan_fault ledger1 ''b'' ''c'' = None
   \<and> GetAssetsByRange ref_lib ledger1 ''b'' ''c'' = Inr None"
proof -
  have 1: "\<forall>k \<in> fst ` set (world ledger1). \<not> in_range ''b'' ''c'' k"
    by (simp add: ledger1_def quiet_stub_def in_range_def index_key_def color_prefix_def
        compositeKeyNamespace_def)
  have 2: "validateSimpleKeys [''b'', ''c''] = Inr ()"
    by (simp add: validateSimpleKeys_def compositeKeyNamespace_def)
  have 3: "scan_fault ledger1 ''b'' ''c'' = None"
    by (simp add: ledger1_def quiet_stub_def)
  from GetAssetsByRange_empty [of ledger1 "''b''" "''c''" ref_lib] 1 2 3
  show ?thesis by (simp add: list_all_iff)
qed

text \<open>
  C6. QueryAssetsByOwner hands to the ad-hoc query path the string made by splicing the
  owner, unescaped, into the selector. For the owner consisting of one double quote that
  string is \<open>{"selector":{"docType":"asset","owner":"""}}\<close>: the string value of "owner"
  ends at the second quote and a third quote follows, so it is not a well-formed
  selector, and no selector on that owner is passed.
\<close>

theorem QueryAssetsByOwner_quote:
  \<open>ownerQueryString [CHR 0x22] = ''{"selector":{"docType":"asset","owner":"""}}''
   \<and> selector_owner (ownerQueryString [CHR 0x22]) = None
   \<and> QueryAssetsByOwner L st [CHR 0x22]
       = getQueryResultForQueryString L st ''{"selector":{"docType":"asset","owner":"""}}''\<close>
  by (simp add: QueryAssetsByOwner_delegates)
     (simp add: selector_owner_def ownerQueryString_def expect_def scan_string_def)

text \<open>
  C7. InitLedger calls CreateAsset on asset1 to asset6, in this order and with these
  literal arguments, each call on the stub the previous one left; the first call that
  fails ends InitLedger with that call's error and stub, so no later asset is created.
  When the asset the loop has reached already exists, that error is
  "asset already exists: id".
\<close>

theorem InitLedger_fail_fast:
  "InitLedger L st =
     (case CreateAsset L st ''asset1'' ''blue'' 5 ''Tomoko'' 300 of
        (Inl err, s1) \<Rightarrow> (Inl err, s1)
      | (Inr u1, s1) \<Rightarrow>
     (case CreateAsset L s1 ''asset2'' ''red'' 5 ''Brad'' 400 of
        (Inl err, s2) \<Rightarrow> (Inl err, s2)
      | (Inr u2, s2) \<Rightarrow>
     (case CreateAsset L s2 ''asset3'' ''green'' 10 ''Jin Soo'' 500 of
        (Inl err, s3) \<Rightarrow> (Inl err, s3)
      | (Inr u3, s3) \<Rightarrow>
     (case CreateAsset L s3 ''asset4'' ''yellow'' 10 ''Max'' 600 of
        (Inl err, s4) \<Rightarrow> (Inl err, s4)
      | (Inr u4, s4) \<Rightarrow>
     (case CreateAsset L s4 ''asset5'' ''black'' 15 ''Adriana'' 700 of
        (Inl err, s5) \<Rightarrow> (Inl err, s5)
      | (Inr u5, s5) \<Rightarrow>
     (case CreateAsset L s5 ''asset6'' ''white'' 15 ''Michel'' 800 of
        (Inl err, s6) \<Rightarrow> (Inl err, s6)
      | (Inr u6, s6) \<Rightarrow> (Inr (), s6)))))))
   \<and> (\<forall>xs a ys s1 v.
         InitLedger_assets = xs @ a # ys \<and> createLoop L st xs = (Inr (), s1)
           \<and> GetState s1 (ID a) = Inr (Some v) \<longrightarrow>
         InitLedger L st = (Inl (''asset already exists: '' @ ID a), s1))"
proof (intro conjI allI impI)
  show "InitLedger L st =
     (case CreateAsset L st ''asset1'' ''blue'' 5 ''Tomoko'' 300 of
        (Inl err, s1) \<Rightarrow> (Inl err, s1)
      | (Inr u1, s1) \<Rightarrow>
     (case CreateAsset L s1 ''asset2'' ''red'' 5 ''Brad'' 400 of
        (Inl err, s2) \<Rightarrow> (Inl err, s2)
      | (Inr u2, s2) \<Rightarrow>
     (case CreateAsset L s2 ''asset3'' ''green'' 10 ''Jin Soo'' 500 of
        (Inl err, s3) \<Rightarrow> (Inl err, s3)
      | (Inr u3, s3) \<Rightarrow>
     (case CreateAsset L s3 ''asset4'' ''yellow'' 10 ''Max'' 600 of
        (Inl err, s4) \<Rightarrow> (Inl err, s4)
      | (Inr u4, s4) \<Rightarrow>
     (case CreateAsset L s4 ''asset5'' ''black'' 15 ''Adriana'' 700 of
        (Inl err, s5) \<Rightarrow> (Inl err, s5)
      | (Inr u5, s5) \<Rightarrow>
     (case CreateAsset L s5 ''asset6'' ''white'' 15 ''Michel'' 800 of
        (Inl err, s6) \<Rightarrow> (Inl err, s6)
      | (Inr u6, s6) \<Rightarrow> (Inr (), s6)))))))"
    by (simp add: InitLedger_def InitLedger_assets_def split: prod.splits sum.splits)
next
  fix xs a ys s1 v
  assume h: "InitLedger_assets = xs @ a # ys \<and> createLoop L st xs = (Inr (), s1)
           \<and> GetState s1 (ID a) = Inr (Some v)"
  then have c: "CreateAsset L s1 (ID a) (Color a) (Size a) (Owner a) (AppraisedValue a)
      = (Inl (''asset already exists: '' @ ID a), s1)"
    by (simp add: CreateAsset_def AssetExists_def)
  from h have e: "InitLedger_assets = xs @ a # ys" and l: "createLoop L st xs = (Inr (), s1)"
    by simp_all
  have "InitLedger L st = createLoop L st (xs @ a # ys)"
    by (simp only: InitLedger_def e)
  also have "\<dots> = createLoop L s1 (a # ys)"
    by (simp only: createLoop_append l prod.case sum.case)
  also have "\<dots> = (Inl (''asset already exists: '' @ ID a), s1)"
    by (simp only: createLoop.simps c prod.case sum.case)
  finally show "InitLedger L st = (Inl (''asset already exists: '' @ ID a), s1)" .
qed

theorem InitLedger_fail_fast_witness:
  "InitLedger_assets =
     [\<lparr>DocType = ''asset'', ID = ''asset1'', Color = ''blue'', Size = 5, Owner = ''Tomoko'',
       AppraisedValue = 300\<rparr>,
      \<lparr>DocType = ''asset'', ID = ''asset2'', Color = ''red'', Size = 5, Owner = ''Brad'',
       AppraisedValue = 400\<rparr>]
     @ \<lparr>DocType = ''asset'', ID = ''asset3'', Color = ''green'', Size = 10,
         Owner = ''Jin Soo'', AppraisedValue = 500\<rparr>
     # drop 3 InitLedger_assets
   \<and> createLoop ref_lib ledger_with_asset3
        [\<lparr>DocType = ''asset'', ID = ''asset1'', Color = ''blue'', Size = 5, Owner = ''Tomoko'',
          AppraisedValue = 300\<rparr>,
         \<lparr>DocType = ''asset'', ID = ''asset2'', Color = ''red'', Size = 5, Owner = ''Brad'',
          AppraisedValue = 400\<rparr>] = (Inr (), ledger_stopped_at_asset3)
   \<and> GetState ledger_stopped_at_asset3 ''asset3'' = Inr (Some ''{}'')
   \<and> InitLedger ref_lib ledger_with_asset3
        = (Inl ''asset already exists: asset3'', ledger_stopped_at_asset3)
   \<and> map_of (world ledger_stopped_at_asset3) ''asset4'' = None"
proof -
  let ?xs = "[\<lparr>DocType = ''asset'', ID = ''asset1'', Color = ''blue'', Size = 5,
                Owner = ''Tomoko'', AppraisedValue = 300\<rparr>,
              \<lparr>DocType = ''asset'', ID = ''asset2'', Color = ''red'', Size = 5,
                Owner = ''Brad'', AppraisedValue = 400\<rparr>]"
  let ?a = "\<lparr>DocType = ''asset'', ID = ''asset3'', Color = ''green'', Size = 10,
         Owner = ''Jin Soo'', AppraisedValue = 500\<rparr>"
  have s: "InitLedger_assets = ?xs @ ?a # drop 3 InitLedger_assets"
    by (simp add: InitLedger_assets_def)
  have g: "GetState ledger_stopped_at_asset3 (ID ?a) = Inr (Some ''{}'')"
    by (simp add: GetState_def ledger_stopped_at_asset3_def quiet_stub_def)
  have n: "map_of (world ledger_stopped_at_asset3) ''asset4'' = None"
    by (simp add: ledger_stopped_at_asset3_def quiet_stub_def index_key_def color_prefix_def
        compositeKeyNamespace_def)
  from InitLedger_fail_fast [of ref_lib ledger_with_asset3] s create_two g
  have "InitLedger ref_lib ledger_with_asset3
        = (Inl (''asset already exists: '' @ ID ?a), ledger_stopped_at_asset3)"
    by blast
  with s create_two g n show ?thesis by simp
qed

text \<open>
  C8. On a ledger the contract can produce, when TransferAssetByColor(color, newOwner)
  succeeds, every existing Asset of that color holds afterwards the encoding of its former
  record with only the owner replaced by newOwner (and reads back as that record when the
  JSON library round-trips it), every other key keeps its value, and the index scan of
  every color enumerates the same entries as before. On any ledger, when the loop reaches
  an index entry whose asset cannot be read or decoded, the operation ends with the error
  of ReadAsset; when the write of that asset fails with an error e, it ends with
  "transfer failed for asset id: e"; in both cases no later entry is processed.
\<close>

theorem TransferAssetByColor_rewrites:
  "(json_contract L \<and> reachable L st
      \<and> TransferAssetByColor L st color newOwner = (Inr u, st') \<longrightarrow>
        (\<forall>k a. asset_at L (world st) k = Some a \<and> Color a = color \<longrightarrow>
           (\<exists>b. json_Marshal L (a\<lparr>Owner := newOwner\<rparr>) = Inr b
                \<and> map_of (world st') k = Some b)
           \<and> (roundtrips L (a\<lparr>Owner := newOwner\<rparr>) \<longrightarrow>
                asset_at L (world st') k = Some (a\<lparr>Owner := newOwner\<rparr>)))
      \<and> (\<forall>k. k \<notin> assets_of_color L (world st) color \<longrightarrow>
             map_of (world st') k = map_of (world st) k)
      \<and> (\<forall>c. index_entries (world st') c = index_entries (world st) c))
   \<and> (GetStateByPartialCompositeKey st index [color] = Inr (pre @ Inr (key, v) # post)
      \<and> transferLoop L st newOwner pre = (Inr (), st1)
      \<and> SplitCompositeKey key = Inr (objectType, parts) \<and> length parts > 1 \<longrightarrow>
        (\<forall>e. ReadAsset L st1 (parts ! 1) = Inl e \<longrightarrow>
           TransferAssetByColor L st color newOwner = (Inl e, st1))
      \<and> (\<forall>a b e. ReadAsset L st1 (parts ! 1) = Inr a
             \<and> json_Marshal L (a\<lparr>Owner := newOwner\<rparr>) = Inr b
             \<and> PutState st1 (parts ! 1) b = Inl e \<longrightarrow>
           TransferAssetByColor L st color newOwner
             = (Inl (''transfer failed for asset '' @ parts ! 1 @ '': '' @ e), st1)))"
proof (intro conjI impI)
  assume h: "json_contract L \<and> reachable L st
      \<and> TransferAssetByColor L st color newOwner = (Inr u, st')"
  then have c: "json_contract L" and r: "reachable L st"
    and ok: "TransferAssetByColor L st color newOwner = (Inr u, st')"
    by simp_all
  have wf: "ledger_wf L (map_of (world st))" by (rule reachable_wf [OF c r])
  have ic: "index_consistent L (world st)" by (rule ledger_wf_index_consistent [OF c wf])
  from ok obtain its where sc: "GetStateByPartialCompositeKey st index [color] = Inr its"
    and lp: "transferLoop L st newOwner its = (Inr u, st')"
    unfolding TransferAssetByColor_Inr by blast
  let ?kvs = "range_entries (world st) (color_prefix color)
                (color_prefix color @ maxUnicodeRuneValue)"
  from scan_color_Inr [OF sc] have col: "valid_attr color"
    and its: "its = map (\<lambda>kv. case next_fault st (fst kv) of Some e \<Rightarrow> Inl e | None \<Rightarrow> Inr kv) ?kvs"
    by simp_all
  from transferLoop_all_Inr [OF lp] have its': "its = map Inr ?kvs"
    unfolding its by (rule fetched_all_Inr)
  have keys: "fst ` set ?kvs = index_entries (world st) color"
    by (simp add: index_entries_def)
  from ic col have bij: "bij_betw (index_key color) (assets_of_color L (world st) color)
      (index_entries (world st) color)"
    by (simp add: index_consistent_def)
  then have img: "index_key color ` assets_of_color L (world st) color
      = index_entries (world st) color"
    by (simp add: bij_betw_def)
  have ks: "\<forall>kv \<in> set ?kvs. \<exists>i. fst kv = index_key color i \<and> valid_attr i"
  proof
    fix kv assume "kv \<in> set ?kvs"
    then have "fst kv \<in> index_key color ` assets_of_color L (world st) color"
      using keys img by auto
    then obtain i where i: "fst kv = index_key color i" "i \<in> assets_of_color L (world st) color"
      by auto
    then obtain a v where "map_of (world st) i = Some v" "json_Unmarshal L v = Inr a"
      by (auto simp: assets_of_color_def asset_at_Some)
    from ledger_wf_asset [OF c wf this] i(1) show "\<exists>i. fst kv = index_key color i \<and> valid_attr i"
      by auto
  qed
  have member: "\<And>k. index_key color k \<in> fst ` set ?kvs \<longleftrightarrow> k \<in> assets_of_color L (world st) color"
    unfolding keys img [symmetric] by (auto simp: index_key_def)
  note loop = transferLoop_ids [OF c col wf ks range_entries_distinct lp [unfolded its']]
  have frame: "\<And>k. k \<notin> assets_of_color L (world st) color \<Longrightarrow>
      map_of (world st') k = map_of (world st) k"
    using loop member by blast
  show "\<forall>k a. asset_at L (world st) k = Some a \<and> Color a = color \<longrightarrow>
           (\<exists>b. json_Marshal L (a\<lparr>Owner := newOwner\<rparr>) = Inr b
                \<and> map_of (world st') k = Some b)
           \<and> (roundtrips L (a\<lparr>Owner := newOwner\<rparr>) \<longrightarrow>
                asset_at L (world st') k = Some (a\<lparr>Owner := newOwner\<rparr>))"
  proof (intro allI impI)
    fix k a assume a: "asset_at L (world st) k = Some a \<and> Color a = color"
    then have "k \<in> assets_of_color L (world st) color"
      by (auto simp: assets_of_color_def)
    with loop [of k] member [of k] obtain a' b where
      r': "ReadAsset L st k = Inr a'" and m: "json_Marshal L (a'\<lparr>Owner := newOwner\<rparr>) = Inr b"
      and b: "b \<noteq> []" "map_of (world st') k = Some b"
      by blast
    from r' a have "a' = a" by (auto simp: ReadAsset_Inr asset_at_Some)
    from a have sk: "simple_key k" by (simp add: asset_at_Some)
    have "roundtrips L (a\<lparr>Owner := newOwner\<rparr>) \<longrightarrow>
            asset_at L (world st') k = Some (a\<lparr>Owner := newOwner\<rparr>)"
      using m b sk unfolding \<open>a' = a\<close> by (auto simp: roundtrips_def asset_at_Some)
    with m b show "(\<exists>b. json_Marshal L (a\<lparr>Owner := newOwner\<rparr>) = Inr b
                \<and> map_of (world st') k = Some b)
           \<and> (roundtrips L (a\<lparr>Owner := newOwner\<rparr>) \<longrightarrow>
                asset_at L (world st') k = Some (a\<lparr>Owner := newOwner\<rparr>))"
      unfolding \<open>a' = a\<close> by blast
  qed
  show "\<forall>k. k \<notin> assets_of_color L (world st) color \<longrightarrow>
             map_of (world st') k = map_of (world st) k"
    using frame by blast
  show "\<forall>c. index_entries (world st') c = index_entries (world st) c"
  proof
    fix c'
    have "\<And>k. in_range (color_prefix c') (color_prefix c' @ maxUnicodeRuneValue) k \<Longrightarrow>
        map_of (world st') k = map_of (world st) k"
    proof -
      fix k assume "in_range (color_prefix c') (color_prefix c' @ maxUnicodeRuneValue) k"
      then have "\<not> simple_key k"
        using in_range_prefix color_prefix_not_simple by blast
      then have "k \<notin> assets_of_color L (world st) color"
        using assets_of_color_simple by blast
      then show "map_of (world st') k = map_of (world st) k" by (rule frame)
    qed
    then show "index_entries (world st') c' = index_entries (world st) c'"
      unfolding index_entries_keys by (auto simp: domIff)
  qed
next
  assume h: "GetStateByPartialCompositeKey st index [color] = Inr (pre @ Inr (key, v) # post)
      \<and> transferLoop L st newOwner pre = (Inr (), st1)
      \<and> SplitCompositeKey key = Inr (objectType, parts) \<and> length parts > 1"
  then have t: "TransferAssetByColor L st color newOwner
      = transferLoop L st1 newOwner (Inr (key, v) # post)"
    by (simp add: TransferAssetByColor_def transferLoop_append)
  show "\<forall>e. ReadAsset L st1 (parts ! 1) = Inl e \<longrightarrow>
           TransferAssetByColor L st color newOwner = (Inl e, st1)"
    unfolding t using h by simp
  show "\<forall>a b e. ReadAsset L st1 (parts ! 1) = Inr a
             \<and> json_Marshal L (a\<lparr>Owner := newOwner\<rparr>) = Inr b
             \<and> PutState st1 (parts ! 1) b = Inl e \<longrightarrow>
           TransferAssetByColor L st color newOwner
             = (Inl (''transfer failed for asset '' @ parts ! 1 @ '': '' @ e), st1)"
    unfolding t using h by simp
qed

theorem TransferAssetByColor_rewrites_witness:
  "json_contract ref_lib \<and> reachable ref_lib ledger1
   \<and> TransferAssetByColor ref_lib ledger1 ''blue'' ''Alice'' = (Inr (), ledger1_alice)
   \<and> asset_at ref_lib (world ledger1) ''asset1'' = Some asset1 \<and> Color asset1 = ''blue''
   \<and> roundtrips ref_lib (asset1\<lparr>Owner := ''Alice''\<rparr>)
   \<and> map_of (world ledger1_alice) ''asset1'' = Some asset1_alice_bytes
   \<and> asset_at ref_lib (world ledger1_alice) ''asset1'' = Some (asset1\<lparr>Owner := ''Alice''\<rparr>)
   \<and> index_entries (world ledger1_alice) ''blue'' = index_entries (world ledger1) ''blue''
   \<and> GetStateByPartialCompositeKey ledger1_readonly index [''blue'']
        = Inr ([] @ Inr (index_key ''blue'' ''asset1'', [CHR 0x00]) # [])
   \<and> transferLoop ref_lib ledger1_readonly ''Alice'' [] = (Inr (), ledger1_readonly)
   \<and> SplitCompositeKey (index_key ''blue'' ''asset1'')
        = Inr (''color~name'', [''blue'', ''asset1''])
   \<and> ReadAsset ref_lib ledger1_readonly ([''blue'', ''asset1''] ! 1) = Inr asset1
   \<and> PutState ledger1_readonly ([''blue'', ''asset1''] ! 1) asset1_alice_bytes
        = Inl ''read-only file system''
   \<and> TransferAssetByColor ref_lib ledger1_readonly ''blue'' ''Alice''
        = (Inl ''transfer failed for asset asset1: read-only file system'', ledger1_readonly)"
proof -
  have col: "Color asset1 = ''blue''" by (simp add: asset1_def)
  have H: "json_contract ref_lib \<and> reachable ref_lib ledger1
      \<and> TransferAssetByColor ref_lib ledger1 ''blue'' ''Alice'' = (Inr (), ledger1_alice)"
    using json_contract_ref_lib reachable_ledger1 transfer_blue_ledger1 by simp
  note T = TransferAssetByColor_rewrites [where L = ref_lib and st = ledger1
      and color = "''blue''" and newOwner = "''Alice''" and u = "()" and st' = ledger1_alice,
      THEN conjunct1, THEN mp, OF H]
  from T have A: "(\<exists>b. json_Marshal ref_lib (asset1\<lparr>Owner := ''Alice''\<rparr>) = Inr b
                \<and> map_of (world ledger1_alice) ''asset1'' = Some b)
           \<and> (roundtrips ref_lib (asset1\<lparr>Owner := ''Alice''\<rparr>) \<longrightarrow>
                asset_at ref_lib (world ledger1_alice) ''asset1''
                  = Some (asset1\<lparr>Owner := ''Alice''\<rparr>))"
    using asset_at_ledger1 col by blast
  from T have I: "index_entries (world ledger1_alice) ''blue''
      = index_entries (world ledger1) ''blue''"
    by blast
  from A ref_Marshal_asset1_alice
  have m: "map_of (world ledger1_alice) ''asset1'' = Some asset1_alice_bytes"
    by auto
  from A roundtrips_ref_lib
  have a: "asset_at ref_lib (world ledger1_alice) ''asset1''
      = Some (asset1\<lparr>Owner := ''Alice''\<rparr>)"
    by blast
  have l: "transferLoop ref_lib ledger1_readonly ''Alice'' [] = (Inr (), ledger1_readonly)"
    by simp
  have r: "ReadAsset ref_lib ledger1_readonly ([''blue'', ''asset1''] ! 1) = Inr asset1"
    using ReadAsset_readonly by simp
  have p: "PutState ledger1_readonly ([''blue'', ''asset1''] ! 1) asset1_alice_bytes
        = Inl ''read-only file system''"
    by (simp add: PutState_def ledger1_readonly_def)
  have H2: "GetStateByPartialCompositeKey ledger1_readonly index [''blue'']
        = Inr ([] @ Inr (index_key ''blue'' ''asset1'', [CHR 0x00]) # [])
      \<and> transferLoop ref_lib ledger1_readonly ''Alice'' [] = (Inr (), ledger1_readonly)
      \<and> SplitCompositeKey (index_key ''blue'' ''asset1'')
           = Inr (''color~name'', [''blue'', ''asset1''])
      \<and> length [''blue'', ''asset1''] > 1"
    using scan_blue_readonly l split_blue_asset1 by simp
  note T2 = TransferAssetByColor_rewrites [where L = ref_lib and st = ledger1_readonly
      and color = "''blue''" and newOwner = "''Alice''" and pre = "[]"
      and key = "index_key ''blue'' ''asset1''" and v = "[CHR 0x00]" and post = "[]"
      and ?st1.0 = ledger1_readonly and objectType = "''color~name''"
      and parts = "[''blue'', ''asset1'']",
      THEN conjunct2, THEN mp, OF H2, THEN conjunct2, rule_format,
      of asset1 asset1_alice_bytes "''read-only file system''"]
  from T2 r ref_Marshal_asset1_alice p
  have f: "TransferAssetByColor ref_lib ledger1_readonly ''blue'' ''Alice''
        = (Inl ''transfer failed for asset asset1: read-only file system'', ledger1_readonly)"
    by simp
  from H asset_at_ledger1 col roundtrips_ref_lib m a I scan_blue_readonly l split_blue_asset1
    r p f
  show ?thesis by (intro conjI) simp_all
qed

text \<open>
  C9. Let the history iterator of the key yield the entries \<open>its\<close>, each with its delete
  flag set exactly when it carries no value (the host's contract for deletes). When
  GetAssetHistory returns, its results are the entries' results one for one and in the
  iterator's order: the entry's transaction id and delete flag, its converted timestamp,
  and as record the placeholder holding only the id for a delete, the decoded value
  otherwise. It returns whenever every value decodes and every timestamp converts. A
  non-delete entry whose value does not decode makes the call fail, with that decoding
  error when the entries before it were converted.
\<close>

theorem GetAssetHistory_entries:
  assumes "GetHistoryForKey st assetID = Inr its"
    and "\<forall>e. Inr e \<in> set its \<longrightarrow> (km_IsDelete e \<longleftrightarrow> km_Value e = [])"
  shows "(\<forall>rs. GetAssetHistory L st assetID = Inr rs \<longrightarrow>
            list_all2 (\<lambda>it r. \<exists>e. it = Inr e \<and> spec_history_result L assetID e r)
              its (elems rs))
     \<and> ((\<forall>it \<in> set its. \<exists>e a t. it = Inr e
            \<and> (km_IsDelete e \<or> json_Unmarshal L (km_Value e) = Inr a)
            \<and> ptypes_Timestamp L (km_Timestamp e) = Inr t) \<longrightarrow>
          (\<exists>rs. GetAssetHistory L st assetID = Inr rs))
     \<and> (\<forall>e err. Inr e \<in> set its \<and> \<not> km_IsDelete e
            \<and> json_Unmarshal L (km_Value e) = Inl err \<longrightarrow>
          (\<exists>err'. GetAssetHistory L st assetID = Inl err'))
     \<and> (\<forall>pre e post acc err. its = pre @ Inr e # post
            \<and> historyLoop L assetID pre None = Inr acc \<and> \<not> km_IsDelete e
            \<and> json_Unmarshal L (km_Value e) = Inl err \<longrightarrow>
          GetAssetHistory L st assetID = Inl err)"
proof (intro conjI allI impI)
  fix rs assume "GetAssetHistory L st assetID = Inr rs"
  then have "historyLoop L assetID its None = Inr rs"
    using assms(1) by (simp add: GetAssetHistory_def)
  from historyLoop_Inr [OF this] have
    "list_all2 (\<lambda>it r. \<exists>e. it = Inr e \<and> TxId r = km_TxId e \<and> IsDelete r = km_IsDelete e
           \<and> ptypes_Timestamp L (km_Timestamp e) = Inr (Timestamp r)
           \<and> (if km_Value e = []
               then Record r = \<lparr>DocType = [], ID = assetID, Color = [], Size = 0,
                                 Owner = [], AppraisedValue = 0\<rparr>
               else json_Unmarshal L (km_Value e) = Inr (Record r))) its (elems rs)"
    by (simp add: elems_def)
  then show "list_all2 (\<lambda>it r. \<exists>e. it = Inr e \<and> spec_history_result L assetID e r)
              its (elems rs)"
  proof (rule list.rel_mono_strong)
    fix it :: "error + KeyModification" and r :: HistoryQueryResult
    assume "it \<in> set its"
      and "\<exists>e. it = Inr e \<and> TxId r = km_TxId e \<and> IsDelete r = km_IsDelete e
           \<and> ptypes_Timestamp L (km_Timestamp e) = Inr (Timestamp r)
           \<and> (if km_Value e = []
               then Record r = \<lparr>DocType = [], ID = assetID, Color = [], Size = 0,
                                 Owner = [], AppraisedValue = 0\<rparr>
               else json_Unmarshal L (km_Value e) = Inr (Record r))"
    then obtain e where e: "it = Inr e" "Inr e \<in> set its" "TxId r = km_TxId e"
        "IsDelete r = km_IsDelete e" "ptypes_Timestamp L (km_Timestamp e) = Inr (Timestamp r)"
        "if km_Value e = []
               then Record r = \<lparr>DocType = [], ID = assetID, Color = [], Size = 0,
                                 Owner = [], AppraisedValue = 0\<rparr>
               else json_Unmarshal L (km_Value e) = Inr (Record r)"
      by auto
    from assms(2) e(2) have "km_IsDelete e \<longleftrightarrow> km_Value e = []" by blast
    with e have "spec_history_result L assetID e r"
      by (simp add: spec_history_result_def)
    with e(1) show "\<exists>e. it = Inr e \<and> spec_history_result L assetID e r" by blast
  qed
next
  assume "\<forall>it \<in> set its. \<exists>e a t. it = Inr e
            \<and> (km_IsDelete e \<or> json_Unmarshal L (km_Value e) = Inr a)
            \<and> ptypes_Timestamp L (km_Timestamp e) = Inr t"
  with assms(2) have "\<forall>it \<in> set its. \<exists>e a t. it = Inr e
            \<and> (km_Value e = [] \<or> json_Unmarshal L (km_Value e) = Inr a)
            \<and> ptypes_Timestamp L (km_Timestamp e) = Inr t"
    by fastforce
  from historyLoop_total [OF this] show "\<exists>rs. GetAssetHistory L st assetID = Inr rs"
    using assms(1) by (simp add: GetAssetHistory_def)
next
  fix e err
  assume h: "Inr e \<in> set its \<and> \<not> km_IsDelete e \<and> json_Unmarshal L (km_Value e) = Inl err"
  with assms(2) have "km_Value e \<noteq> []" by blast
  with h historyLoop_corrupt [of e its L err assetID None]
  show "\<exists>err'. GetAssetHistory L st assetID = Inl err'"
    using assms(1) by (simp add: GetAssetHistory_def)
next
  fix pre e post acc err
  assume h: "its = pre @ Inr e # post \<and> historyLoop L assetID pre None = Inr acc
     \<and> \<not> km_IsDelete e \<and> json_Unmarshal L (km_Value e) = Inl err"
  with assms(2) have "km_Value e \<noteq> []" by auto
  with h have "historyLoop L assetID its None = Inl err"
    by (simp add: historyLoop_append)
  then show "GetAssetHistory L st assetID = Inl err"
    using assms(1) by (simp add: GetAssetHistory_def)
qed

theorem GetAssetHistory_entries_witness:
  "GetHistoryForKey history_stub ''asset1'' = Inr (map Inr history1)
   \<and> list_all (\<lambda>e. km_IsDelete e \<longleftrightarrow> km_Value e = []) history1
   \<and> GetAssetHistory ref_lib history_stub ''asset1'' = Inr (Some history1_results)
   \<and> list_all2 (\<lambda>it r. \<exists>e. it = Inr e \<and> spec_history_result ref_lib ''asset1'' e r)
         (map Inr history1 :: (error + KeyModification) list) history1_results
   \<and> GetAssetHistory ref_lib history_stub ''broken''
        = Inl ''json: cannot unmarshal into Go value of type Asset''"
proof -
  have h: "GetHistoryForKey history_stub ''asset1'' = Inr (map Inr history1)"
    by (simp add: GetHistoryForKey_def history_stub_def quiet_stub_def)
  have c: "list_all (\<lambda>e. km_IsDelete e \<longleftrightarrow> km_Value e = []) history1"
    by (simp add: history1_def asset1_bytes_def asset1_alice_bytes_def)
  then have c': "\<forall>e. Inr e \<in> set (map Inr history1) \<longrightarrow> (km_IsDelete e \<longleftrightarrow> km_Value e = [])"
    by (auto simp: list_all_iff)
  note t = GetAssetHistory_entries [OF h c', of ref_lib, THEN conjunct1, rule_format,
      OF history1_eval]
  with h c history1_eval history_broken_eval show ?thesis by (simp add: elems_def)
qed

text \<open>
  C10. Every successful CreateAsset stores, under the index key built from the color and
  the id, exactly the one byte 0x00: the value is neither nil nor empty, so the key exists
  in the ledger (reading it does not return nil).
\<close>

theorem CreateAsset_index_marker:
  assumes "CreateAsset L st assetID color size' owner appraisedValue = (Inr u, st')"
  shows "CreateCompositeKey index [color, assetID] = Inr (index_key color assetID)
     \<and> map_of (world st') (index_key color assetID) = Some [CHR 0x00]
     \<and> GetState st' (index_key color assetID) \<noteq> Inr None"
proof -
  from CreateAsset_Inr [OF assms] obtain b where
    v: "valid_attr color" "valid_attr assetID" and
    st': "st' = st\<lparr>world := AList.update (index_key color assetID) [CHR 0x00]
                   (if b = [] then AList.delete assetID (world st)
                    else AList.update assetID b (world st))\<rparr>"
    by blast
  have 1: "CreateCompositeKey index [color, assetID] = Inr (index_key color assetID)"
    using v by (simp add: CreateCompositeKey_index)
  have 2: "map_of (world st') (index_key color assetID) = Some [CHR 0x00]"
    by (simp add: st' update_conv')
  have 3: "GetState st' (index_key color assetID) \<noteq> Inr None"
    using 2 by (auto simp: GetState_def split: option.splits)
  from 1 2 3 show ?thesis by blast
qed

theorem CreateAsset_index_marker_witness:
  "CreateAsset ref_lib (quiet_stub []) ''asset1'' ''blue'' 5 ''Tomoko'' 300 = (Inr (), ledger1)
   \<and> map_of (world ledger1) (index_key ''blue'' ''asset1'') = Some [CHR 0x00]
   \<and> GetState ledger1 (index_key ''blue'' ''asset1'') \<noteq> Inr None"
  using CreateAsset_index_marker [OF create_asset1] create_asset1 by simp

end
